theory Spec2Isabelle
  imports Main "HOL-Library.AList"
begin

section \<open>JavaScript values, objects and the heap\<close>

text \<open>
  The controller mixin (\<^verbatim>\<open>lib/controller.js\<close>) is dynamically typed code that
  mutates the objects it is given (the endpoint definition, its \<^verbatim>\<open>options\<close>, its ACL
  entries, the model). Objects are therefore kept in a heap and a value is either a
  primitive or a reference into the heap, so that two references to one object see each
  other's writes.

  Numbers are modelled by the integers (no \<^verbatim>\<open>NaN\<close>, no fractions); strings are byte
  lists. Objects are bags of own enumerable data properties in enumeration order: there
  are no getters, setters or proxies.  An object is extensible, non-extensible (after
  \<^verbatim>\<open>Object.preventExtensions\<close> or \<^verbatim>\<open>Object.seal\<close>: no property can be added) or
  frozen (after \<^verbatim>\<open>Object.freeze\<close>: no property can be added or written).
\<close>

datatype jsval =
    JUndefined
  | JNull
  | JBool bool
  | JNum int
  | JStr string
  | JRef nat

datatype kind = Plain | Array | Function

datatype level = Extensible | NonExtensible | Frozen

record jsobj =
  kind :: kind
  elems :: "jsval list"
  props :: "(string \<times> jsval) list"

text \<open>
  \<open>elems\<close> holds the indexed elements of an array (empty for other objects) and
  \<open>props\<close> the named properties.  A call of a method of the host framework on the
  model (\<^verbatim>\<open>model.remoteMethod(...)\<close>, \<^verbatim>\<open>model.disableRemoteMethodByName(...)\<close>,
  \<^verbatim>\<open>model.beforeRemote(...)\<close>) is recorded in \<open>calls\<close>: receiver, method name,
  arguments.  \<open>integrity\<close> gives the level of the object at each address.
\<close>

datatype call = Call jsval string "jsval list"

record state =
  heap :: "nat \<Rightarrow> jsobj"
  nxt :: nat
  calls :: "call list"
  integrity :: "nat \<Rightarrow> level"

text \<open>
  \<open>TypeError\<close> is the engine's own exception, \<open>Error msg\<close> is
  \<^verbatim>\<open>throw new Error(msg)\<close>.  \<open>Unmodelled\<close> marks the few places where the
  source would run code that is not part of this model (a user-defined
  \<^verbatim>\<open>toString\<close>, \<^verbatim>\<open>toLowerCase\<close> or \<^verbatim>\<open>map\<close> method, a string's own
  \<^verbatim>\<open>concat\<close> and \<^verbatim>\<open>indexOf\<close>).
\<close>

datatype error = TypeError | Error string | Unmodelled

definition andThen :: "error + 'a \<Rightarrow> ('a \<Rightarrow> error + 'b) \<Rightarrow> error + 'b" where
  "andThen m f = (case m of Inl e \<Rightarrow> Inl e | Inr x \<Rightarrow> f x)"

fun truthy :: "jsval \<Rightarrow> bool" where
  "truthy JUndefined = False"
| "truthy JNull = False"
| "truthy (JBool b) = b"
| "truthy (JNum n) = (n \<noteq> 0)"
| "truthy (JStr x) = (x \<noteq> [])"
| "truthy (JRef a) = True"

definition lookup :: "state \<Rightarrow> nat \<Rightarrow> string \<Rightarrow> jsval" where
  "lookup s a k = (case map_of (props (heap s a)) k of None \<Rightarrow> JUndefined | Some v \<Rightarrow> v)"

text \<open>
  \<^verbatim>\<open>v.k\<close> for a property name \<open>k\<close> that is neither an array index nor
  \<^verbatim>\<open>length\<close> and that no built-in prototype defines (every name the source reads by
  a literal is such): reading from \<^verbatim>\<open>undefined\<close> or \<^verbatim>\<open>null\<close> throws, reading from
  another primitive yields \<^verbatim>\<open>undefined\<close>.
\<close>

definition get_prop :: "state \<Rightarrow> jsval \<Rightarrow> string \<Rightarrow> error + jsval" where
  "get_prop s v k =
     (case v of
        JUndefined \<Rightarrow> Inl TypeError
      | JNull \<Rightarrow> Inl TypeError
      | JRef a \<Rightarrow> Inr (lookup s a k)
      | _ \<Rightarrow> Inr JUndefined)"

definition put :: "state \<Rightarrow> nat \<Rightarrow> string \<Rightarrow> jsval \<Rightarrow> state" where
  "put s a k x =
     s\<lparr>heap := (heap s)(a := (heap s a)\<lparr>props := AList.update k x (props (heap s a))\<rparr>)\<rparr>"

text \<open>
  Whether the property \<open>k\<close> of the object at \<open>a\<close> can be assigned: always in an
  extensible object, only when it exists in a non-extensible one, never in a frozen one.
\<close>

definition writable :: "state \<Rightarrow> nat \<Rightarrow> string \<Rightarrow> bool" where
  "writable s a k =
     (case integrity s a of
        Extensible \<Rightarrow> True
      | NonExtensible \<Rightarrow> map_of (props (heap s a)) k \<noteq> None
      | Frozen \<Rightarrow> False)"

text \<open>
  \<^verbatim>\<open>v.k = x\<close> in strict mode (the file starts with \<^verbatim>\<open>'use strict'\<close>): a write to
  a primitive throws, and so does a write that the object's level forbids.  A new key
  goes to the end of the enumeration order (the source never writes an array index).
\<close>

definition set_prop :: "state \<Rightarrow> jsval \<Rightarrow> string \<Rightarrow> jsval \<Rightarrow> error + state" where
  "set_prop s v k x =
     (case v of
        JRef a \<Rightarrow> if writable s a k then Inr (put s a k x) else Inl TypeError
      | _ \<Rightarrow> Inl TypeError)"

text \<open>A new object is extensible.\<close>

definition alloc :: "jsobj \<Rightarrow> state \<Rightarrow> jsval \<times> state" where
  "alloc ob s =
     (JRef (nxt s),
      s\<lparr>heap := (heap s)(nxt s := ob), nxt := Suc (nxt s),
        integrity := (integrity s)(nxt s := Extensible)\<rparr>)"

text \<open>\<^verbatim>\<open>v || {...}\<close> and \<^verbatim>\<open>v || [...]\<close>: the literal is only built when \<open>v\<close> is falsy.\<close>

definition or_new :: "jsval \<Rightarrow> jsobj \<Rightarrow> state \<Rightarrow> jsval \<times> state" where
  "or_new v ob s = (if truthy v then (v, s) else alloc ob s)"

definition new_object :: "(string \<times> jsval) list \<Rightarrow> jsobj" where
  "new_object ps = \<lparr>kind = Plain, elems = [], props = ps\<rparr>"

definition new_array :: "jsval list \<Rightarrow> jsobj" where
  "new_array es = \<lparr>kind = Array, elems = es, props = []\<rparr>"

definition typeof :: "state \<Rightarrow> jsval \<Rightarrow> string" where
  "typeof s v =
     (case v of
        JUndefined \<Rightarrow> ''undefined''
      | JNull \<Rightarrow> ''object''
      | JBool b \<Rightarrow> ''boolean''
      | JNum n \<Rightarrow> ''number''
      | JStr x \<Rightarrow> ''string''
      | JRef a \<Rightarrow> (if kind (heap s a) = Function then ''function'' else ''object''))"

definition isArray :: "state \<Rightarrow> jsval \<Rightarrow> bool" where
  "isArray s v = (case v of JRef a \<Rightarrow> kind (heap s a) = Array | _ \<Rightarrow> False)"

definition callable :: "state \<Rightarrow> jsval \<Rightarrow> bool" where
  "callable s v = (case v of JRef a \<Rightarrow> kind (heap s a) = Function | _ \<Rightarrow> False)"

text \<open>
  \<^verbatim>\<open>v.m(...)\<close> for a method \<open>m\<close> of \<^verbatim>\<open>Array.prototype\<close> (\<^verbatim>\<open>concat\<close>,
  \<^verbatim>\<open>indexOf\<close>, \<^verbatim>\<open>map\<close>): the elements the built-in method works on when \<open>v\<close> is
  an array; a \<open>TypeError\<close> when \<open>v\<close> has no such method.
\<close>

definition array_method :: "state \<Rightarrow> jsval \<Rightarrow> string \<Rightarrow> error + jsval list" where
  "array_method s v m =
     (case v of
        JStr x \<Rightarrow> Inl (if m = ''concat'' \<or> m = ''indexOf'' then Unmodelled else TypeError)
      | JRef a \<Rightarrow>
          (case map_of (props (heap s a)) m of
             Some f \<Rightarrow> Inl (if callable s f then Unmodelled else TypeError)
           | None \<Rightarrow> if kind (heap s a) = Array then Inr (elems (heap s a)) else Inl TypeError)
      | _ \<Rightarrow> Inl TypeError)"

subsection \<open>Strings\<close>

definition digit :: "nat \<Rightarrow> char" where
  "digit n = ''0123456789'' ! (n mod 10)"

fun show_nat :: "nat \<Rightarrow> string" where
  "show_nat n = (if n < 10 then [digit n] else show_nat (n div 10) @ [digit n])"

declare show_nat.simps [simp del]

definition show_int :: "int \<Rightarrow> string" where
  "show_int i = (if i < 0 then CHR ''-'' # show_nat (nat (- i)) else show_nat (nat i))"

text \<open>
  The string a primitive converts to (a number below \<open>10\<^sup>2\<^sup>1\<close> in decimal digits; larger
  ones are printed with an exponent, which is not modelled); converting an object runs
  its own methods.
\<close>

definition to_str :: "jsval \<Rightarrow> error + string" where
  "to_str v =
     (case v of
        JUndefined \<Rightarrow> Inr ''undefined''
      | JNull \<Rightarrow> Inr ''null''
      | JBool b \<Rightarrow> Inr (if b then ''true'' else ''false'')
      | JNum n \<Rightarrow> if \<bar>n\<bar> < 10 ^ 21 then Inr (show_int n) else Inl Unmodelled
      | JStr x \<Rightarrow> Inr x
      | JRef a \<Rightarrow> Inl Unmodelled)"

definition lower_char :: "char \<Rightarrow> char" where
  "lower_char c =
     (case map_of (zip ''ABCDEFGHIJKLMNOPQRSTUVWXYZ'' ''abcdefghijklmnopqrstuvwxyz'') c of
        None \<Rightarrow> c
      | Some l \<Rightarrow> l)"

text \<open>
  \<^verbatim>\<open>v.toLowerCase()\<close>: only strings have the method (ASCII letters are folded,
  other bytes kept).
\<close>

definition toLowerCase :: "state \<Rightarrow> jsval \<Rightarrow> error + string" where
  "toLowerCase s v =
     (case v of
        JStr x \<Rightarrow> Inr (map lower_char x)
      | JRef a \<Rightarrow> Inl (if callable s (lookup s a ''toLowerCase'') then Unmodelled else TypeError)
      | _ \<Rightarrow> Inl TypeError)"

section \<open>The descriptor normalizer: \<^verbatim>\<open>prepare\<close>\<close>

definition CONTROLLER_NAME_PREFIX :: string where
  "CONTROLLER_NAME_PREFIX = ''endpoint:''"

text \<open>
  The object literal \<^verbatim>\<open>prepare\<close> returns.  It is fresh and only read afterwards, so
  it is a record rather than a heap object; \<open>acls\<close> and \<open>hooks\<close> are its fresh arrays
  (a hook is the pair of its \<^verbatim>\<open>type\<close> and \<^verbatim>\<open>handler\<close>).
\<close>

record descriptor =
  name :: string
  isStatic :: jsval
  remoteMethod :: jsval
  acls :: "jsval list"
  handler :: jsval
  hooks :: "(string \<times> jsval) list"

text \<open>\<^verbatim>\<open>CONTROLLER_NAME_PREFIX + name\<close> (lines 275--277).\<close>

definition getEndpointName :: "jsval \<Rightarrow> error + string" where
  "getEndpointName n = andThen (to_str n) (\<lambda>x. Inr (CONTROLLER_NAME_PREFIX @ x))"

text \<open>Line 174: \<^verbatim>\<open>let remoteMethod = definition.options || {}\<close>.\<close>

definition prepare_options :: "jsval \<Rightarrow> state \<Rightarrow> error + (jsval \<times> state)" where
  "prepare_options definition s =
     andThen (get_prop s definition ''options'') (\<lambda>opts.
       Inr (or_new opts (new_object []) s))"

text \<open>Lines 176--177: an unset \<^verbatim>\<open>isStatic\<close> becomes \<^verbatim>\<open>true\<close>.\<close>

definition prepare_isStatic :: "jsval \<Rightarrow> state \<Rightarrow> error + state" where
  "prepare_isStatic definition s =
     andThen (get_prop s definition ''isStatic'') (\<lambda>st.
       if st = JUndefined \<or> st = JNull
       then set_prop s definition ''isStatic'' (JBool True)
       else Inr s)"

text \<open>Lines 179--182: the final name.\<close>

definition prepare_name :: "jsval \<Rightarrow> state \<Rightarrow> error + string" where
  "prepare_name definition s =
     andThen (get_prop s definition ''name'') (\<lambda>n.
     andThen (getEndpointName n) (\<lambda>nm.
     andThen (get_prop s definition ''isStatic'') (\<lambda>st.
       Inr (if \<not> truthy st then ''prototype.'' @ nm else nm))))"

text \<open>Lines 185--189: \<^verbatim>\<open>remoteMethod.http\<close> with its verb and path.\<close>

definition prepare_http :: "jsval \<Rightarrow> jsval \<Rightarrow> state \<Rightarrow> error + state" where
  "prepare_http definition rm s =
     andThen (get_prop s rm ''http'') (\<lambda>h.
     andThen (if \<not> truthy h
              then (case alloc (new_object []) s of (o', s') \<Rightarrow> set_prop s' rm ''http'' o')
              else Inr s) (\<lambda>s1.
     andThen (get_prop s1 rm ''http'') (\<lambda>http.
     andThen (get_prop s1 definition ''verb'') (\<lambda>verb.
     andThen (toLowerCase s1 verb) (\<lambda>lv.
     andThen (set_prop s1 http ''verb'' (if truthy (JStr lv) then JStr lv else JStr ''get'')) (\<lambda>s2.
     andThen (get_prop s2 rm ''http'') (\<lambda>http'.
     andThen (get_prop s2 definition ''path'') (\<lambda>p.
       set_prop s2 http' ''path'' p))))))))"

text \<open>Lines 191--195: description, accepts and returns.\<close>

definition prepare_schema :: "jsval \<Rightarrow> jsval \<Rightarrow> state \<Rightarrow> error + state" where
  "prepare_schema definition rm s =
     andThen (get_prop s definition ''description'') (\<lambda>d.
     andThen (if truthy d then set_prop s rm ''description'' d else Inr s) (\<lambda>s1.
     andThen (get_prop s1 definition ''accepts'') (\<lambda>acc.
     andThen (case or_new acc (new_array []) s1 of
                (v, s') \<Rightarrow> set_prop s' rm ''accepts'' v) (\<lambda>s2.
     andThen (get_prop s2 definition ''returns'') (\<lambda>ret.
       case or_new ret (new_object [(''root'', JBool True), (''type'', JStr ''object'')]) s2 of
         (v, s') \<Rightarrow> set_prop s' rm ''returns'' v)))))"

text \<open>Lines 198--201: \<^verbatim>\<open>definition.acls\<close> is wrapped into an array.\<close>

definition prepare_acls :: "jsval \<Rightarrow> state \<Rightarrow> error + state" where
  "prepare_acls definition s =
     andThen (get_prop s definition ''acls'') (\<lambda>a.
       if truthy a \<and> typeof s a = ''object''
       then (case alloc (new_array [a]) s of (w, s') \<Rightarrow> set_prop s' definition ''acls'' w)
       else if \<not> truthy a
       then (case alloc (new_array []) s of (w, s') \<Rightarrow> set_prop s' definition ''acls'' w)
       else Inr s)"

text \<open>Lines 203--212: the callback of \<^verbatim>\<open>definition.acls.map\<close>, and the map itself.\<close>

definition acl_default :: "string \<Rightarrow> jsval \<Rightarrow> state \<Rightarrow> error + (jsval \<times> state)" where
  "acl_default nm acl s =
     andThen (get_prop s acl ''property'') (\<lambda>p.
     andThen (if \<not> truthy p then set_prop s acl ''property'' (JStr nm) else Inr s) (\<lambda>s1.
     andThen (get_prop s1 acl ''principalType'') (\<lambda>t.
     andThen (if \<not> truthy t then set_prop s1 acl ''principalType'' (JStr ''ROLE'') else Inr s1) (\<lambda>s2.
       Inr (acl, s2)))))"

fun map_acls :: "string \<Rightarrow> jsval list \<Rightarrow> state \<Rightarrow> error + (jsval list \<times> state)" where
  "map_acls nm [] s = Inr ([], s)"
| "map_acls nm (acl # rest) s =
     andThen (acl_default nm acl s) (\<lambda>(x, s1).
     andThen (map_acls nm rest s1) (\<lambda>(xs, s2). Inr (x # xs, s2)))"

definition prepare_map_acls :: "string \<Rightarrow> jsval \<Rightarrow> state \<Rightarrow> error + (jsval list \<times> state)" where
  "prepare_map_acls nm definition s =
     andThen (get_prop s definition ''acls'') (\<lambda>a.
     andThen (array_method s a ''map'') (\<lambda>es. map_acls nm es s))"

text \<open>Lines 215--219: the handler check and the hooks.\<close>

definition prepare_hooks :: "jsval \<Rightarrow> state \<Rightarrow> error + (string \<times> jsval) list" where
  "prepare_hooks definition s =
     andThen (get_prop s definition ''handler'') (\<lambda>h.
       if \<not> truthy h then Inl (Error ''Handler is not set'')
       else
     andThen (get_prop s definition ''before'') (\<lambda>b.
     andThen (get_prop s definition ''after'') (\<lambda>a.
     andThen (get_prop s definition ''error'') (\<lambda>e.
       Inr ((if truthy b then [(''beforeRemote'', b)] else []) @
            (if truthy a then [(''afterRemote'', a)] else []) @
            (if truthy e then [(''afterRemoteError'', e)] else []))))))"

text \<open>Lines 172--229.\<close>

definition prepare :: "jsval \<Rightarrow> state \<Rightarrow> error + (descriptor \<times> state)" where
  "prepare definition s0 =
     andThen (prepare_options definition s0) (\<lambda>(rm, s1).
     andThen (prepare_isStatic definition s1) (\<lambda>s2.
     andThen (prepare_name definition s2) (\<lambda>nm.
     andThen (prepare_http definition rm s2) (\<lambda>s3.
     andThen (prepare_schema definition rm s3) (\<lambda>s4.
     andThen (prepare_acls definition s4) (\<lambda>s5.
     andThen (prepare_map_acls nm definition s5) (\<lambda>(as, s6).
     andThen (prepare_hooks definition s6) (\<lambda>hs.
     andThen (get_prop s6 definition ''isStatic'') (\<lambda>st.
     andThen (get_prop s6 definition ''handler'') (\<lambda>h.
       Inr (\<lparr>name = nm, isStatic = st, remoteMethod = rm, acls = as,
              handler = h, hooks = hs\<rparr>, s6)))))))))))"

section \<open>The visibility resolver: \<^verbatim>\<open>getSettings\<close> and \<^verbatim>\<open>hideEndpoints\<close>\<close>

definition MODEL_METHODS :: "string list" where
  "MODEL_METHODS =
     [''count'', ''create'', ''createChangeStream'', ''deleteById'', ''exists'', ''find'',
      ''findById'', ''findOne'', ''patchOrCreate'', ''prototype.patchAttributes'',
      ''replaceById'', ''replaceOrCreate'', ''updateAll'', ''upsertWithWhere'']"

definition RELATION_METHODS :: "string list" where
  "RELATION_METHODS =
     [''count'', ''create'', ''delete'', ''destroy'', ''destroyById'', ''findById'', ''get'',
      ''update'', ''updateById'']"

definition SCOPE_METHODS :: "string list" where
  "SCOPE_METHODS = [''get'', ''create'', ''delete'', ''count'']"

text \<open>
  \<^verbatim>\<open>Object.keys(v)\<close>: the indices of an array (or of a string), then the named
  properties in enumeration order.
\<close>

definition own_keys :: "state \<Rightarrow> jsval \<Rightarrow> error + string list" where
  "own_keys s v =
     (case v of
        JUndefined \<Rightarrow> Inl TypeError
      | JNull \<Rightarrow> Inl TypeError
      | JStr x \<Rightarrow> Inr (map show_nat [0..<length x])
      | JRef a \<Rightarrow> Inr (map show_nat [0..<length (elems (heap s a))] @ map fst (props (heap s a)))
      | _ \<Rightarrow> Inr [])"

text \<open>\<^verbatim>\<open>_.union(xs, ys)\<close> of lodash: the values of both, each once, in order of first occurrence.\<close>

fun uniq :: "'a list \<Rightarrow> 'a list" where
  "uniq [] = []"
| "uniq (x # xs) = x # uniq (removeAll x xs)"

definition lodash_union :: "'a list \<Rightarrow> 'a list \<Rightarrow> 'a list" where
  "lodash_union xs ys = uniq (xs @ ys)"

text \<open>
  Lines 141--148: the \<^verbatim>\<open>reduce\<close> over the keys; \<open>blacklist\<close> is its accumulator.
  \<^verbatim>\<open>whitelist.indexOf(key)\<close> is looked up anew for every key.
\<close>

fun reduce_keys ::
  "state \<Rightarrow> jsval \<Rightarrow> string \<Rightarrow> string list \<Rightarrow> string list \<Rightarrow> string list \<Rightarrow> error + string list"
where
  "reduce_keys s whitelist prefix predefinedMethods blacklist [] = Inr blacklist"
| "reduce_keys s whitelist prefix predefinedMethods blacklist (key # keys) =
     andThen (array_method s whitelist ''indexOf'') (\<lambda>w.
       if JStr key \<in> set w
       then reduce_keys s whitelist prefix predefinedMethods blacklist keys
       else reduce_keys s whitelist prefix predefinedMethods
              (blacklist @ map (\<lambda>m. prefix @ m @ ''__'' @ key) predefinedMethods) keys)"

text \<open>Lines 122--153.\<close>

definition getSettings :: "state \<Rightarrow> jsval \<Rightarrow> string \<Rightarrow> jsval \<Rightarrow> error + string list" where
  "getSettings s model nm whitelist =
     andThen (get_prop s model ''definition'') (\<lambda>d.
     andThen (get_prop s d ''settings'') (\<lambda>st.
     andThen (get_prop s st nm) (\<lambda>sn.
     andThen (if truthy sn then own_keys s sn else Inr []) (\<lambda>keys.
     andThen (get_prop s model nm) (\<lambda>mn.
     andThen (if truthy mn
              then andThen (own_keys s mn) (\<lambda>ks. Inr (lodash_union keys ks))
              else Inr keys) (\<lambda>keys'.
       if nm = ''relations'' then reduce_keys s whitelist ''prototype.__'' RELATION_METHODS [] keys'
       else if nm = ''scopes'' then reduce_keys s whitelist ''__'' SCOPE_METHODS [] keys'
       else Inr []))))))"

definition array_length :: "state \<Rightarrow> jsval \<Rightarrow> nat" where
  "array_length s v = (case v of JRef a \<Rightarrow> length (elems (heap s a)) | _ \<Rightarrow> 0)"

text \<open>Lines 91--98: the base operations to hide.\<close>

definition modelMethods :: "state \<Rightarrow> jsval \<Rightarrow> error + string list" where
  "modelMethods s whitelist =
     andThen (get_prop s whitelist ''base'') (\<lambda>filter'.
       if truthy filter' \<and> isArray s filter' \<and> 0 < array_length s filter'
       then andThen (array_method s filter' ''indexOf'') (\<lambda>w.
              Inr (filter (\<lambda>methodName. JStr methodName \<notin> set w) MODEL_METHODS))
       else Inr MODEL_METHODS)"

text \<open>Lines 91--104: the final value of the local \<^verbatim>\<open>blacklist\<close>.\<close>

definition hideEndpoints_blacklist ::
  "jsval \<Rightarrow> jsval \<Rightarrow> jsval \<Rightarrow> state \<Rightarrow> error + (jsval list \<times> state)"
where
  "hideEndpoints_blacklist model blacklist whitelist s =
     andThen (modelMethods s whitelist) (\<lambda>mm.
     andThen (array_method s blacklist ''concat'') (\<lambda>bl.
     andThen (get_prop s whitelist ''relation'') (\<lambda>r.
     case or_new r (new_array []) s of (wr, s1) \<Rightarrow>
     andThen (getSettings s1 model ''relations'' wr) (\<lambda>rs.
     andThen (get_prop s1 whitelist ''scopes'') (\<lambda>c.
     case or_new c (new_array []) s1 of (wc, s2) \<Rightarrow>
     andThen (getSettings s2 model ''scopes'' wc) (\<lambda>cs.
       Inr (bl @ map JStr mm @ map JStr rs @ map JStr cs, s2)))))))"

text \<open>Lines 86--111: every name of the list is disabled on the model, in order.\<close>

definition hideEndpoints :: "jsval \<Rightarrow> jsval \<Rightarrow> jsval \<Rightarrow> state \<Rightarrow> error + state" where
  "hideEndpoints model blacklist whitelist s =
     andThen (hideEndpoints_blacklist model blacklist whitelist s) (\<lambda>(bl, s1).
       Inr (s1\<lparr>calls := calls s1 @ map (\<lambda>n. Call model ''disableRemoteMethodByName'' [n]) bl\<rparr>))"

text \<open>The names the host was asked to disable.\<close>

definition disabled :: "call list \<Rightarrow> jsval list" where
  "disabled cs =
     concat (map (\<lambda>c. case c of Call m f args \<Rightarrow>
                         if f = ''disableRemoteMethodByName'' then args else []) cs)"

section \<open>The registration engine: \<^verbatim>\<open>loadController\<close> and \<^verbatim>\<open>Controller\<close>\<close>

text \<open>
  Lines 252--254: \<^verbatim>\<open>model.settings.acls\<close> is created when unset and replaced by its
  concatenation with the descriptor's ACLs.
\<close>

definition merge_acls :: "jsval \<Rightarrow> jsval list \<Rightarrow> state \<Rightarrow> error + state" where
  "merge_acls model as s =
     andThen (get_prop s model ''settings'') (\<lambda>st.
     andThen (get_prop s st ''acls'') (\<lambda>a.
     andThen (if \<not> truthy a
              then (case alloc (new_array []) s of (w, s') \<Rightarrow> set_prop s' st ''acls'' w)
              else Inr s) (\<lambda>s1.
     andThen (get_prop s1 model ''settings'') (\<lambda>st1.
     andThen (get_prop s1 st1 ''acls'') (\<lambda>a1.
     andThen (array_method s1 a1 ''concat'') (\<lambda>old.
       case alloc (new_array (old @ as)) s1 of (w, s2) \<Rightarrow> set_prop s2 st1 ''acls'' w))))))"

text \<open>Lines 237--267.\<close>

fun loadController :: "jsval \<Rightarrow> descriptor list \<Rightarrow> state \<Rightarrow> error + state" where
  "loadController model [] s = Inr s"
| "loadController model (def # rest) s =
     andThen (Inr (s\<lparr>calls := calls s @
                [Call model ''remoteMethod'' [JStr (name def), remoteMethod def]]\<rparr>)) (\<lambda>s1.
     andThen (if truthy (isStatic def) then set_prop s1 model (name def) (handler def)
              else andThen (get_prop s1 model ''prototype'') (\<lambda>p.
                     set_prop s1 p (name def) (handler def))) (\<lambda>s2.
     andThen (if acls def \<noteq> [] then merge_acls model (acls def) s2 else Inr s2) (\<lambda>s3.
       loadController model rest
         (s3\<lparr>calls := calls s3 @
            map (\<lambda>(t, h). Call model t [JStr (name def), h]) (hooks def)\<rparr>))))"

definition CONTROLLER_DEFAULT_DIR :: string where
  "CONTROLLER_DEFAULT_DIR = ''./common/controllers/''"

text \<open>
  What the mixin takes from outside the repository: \<^verbatim>\<open>_.kebabCase\<close> of lodash,
  \<^verbatim>\<open>path.resolve\<close> of Node, and \<^verbatim>\<open>require(filePath)(Model, controllers)\<close>, the
  controller file of the application, which may fail and may change any object.
\<close>

record env =
  kebabCase :: "state \<Rightarrow> jsval \<Rightarrow> string"
  resolve :: "string \<Rightarrow> string \<Rightarrow> string"
  require :: "jsval \<Rightarrow> jsval \<Rightarrow> jsval \<Rightarrow> state \<Rightarrow> error + state"

text \<open>\<^verbatim>\<open>controllers[name]\<close> for a key of \<^verbatim>\<open>Object.keys(controllers)\<close>.\<close>

definition get_key :: "state \<Rightarrow> jsval \<Rightarrow> string \<Rightarrow> error + jsval" where
  "get_key s v k =
     (case v of
        JRef a \<Rightarrow>
          Inr (case map_of (zip (map show_nat [0..<length (elems (heap s a))]) (elems (heap s a))
                            @ props (heap s a)) k of
                 None \<Rightarrow> JUndefined
               | Some x \<Rightarrow> x)
      | _ \<Rightarrow> get_prop s v k)"

text \<open>Lines 63--68: every controller gets its name and is prepared.\<close>

fun map_controllers ::
  "jsval \<Rightarrow> string list \<Rightarrow> state \<Rightarrow> error + (descriptor list \<times> state)"
where
  "map_controllers controllers [] s = Inr ([], s)"
| "map_controllers controllers (nm # keys) s =
     andThen (get_key s controllers nm) (\<lambda>controller.
     andThen (set_prop s controller ''name'' (JStr nm)) (\<lambda>s1.
     andThen (prepare controller s1) (\<lambda>(d, s2).
     andThen (map_controllers controllers keys s2) (\<lambda>(ds, s3). Inr (d # ds, s3)))))"

text \<open>Lines 55--58: the path of the controller file.\<close>

definition controller_path :: "env \<Rightarrow> jsval \<Rightarrow> jsval \<Rightarrow> state \<Rightarrow> error + jsval" where
  "controller_path e Model meta s =
     andThen (get_prop s meta ''fileName'') (\<lambda>fn.
     andThen (if truthy fn then Inr fn
              else andThen (get_prop s Model ''modelName'') (\<lambda>mn.
                     Inr (JStr (kebabCase e s mn)))) (\<lambda>fileName.
     andThen (get_prop s meta ''filePath'') (\<lambda>fp.
       if truthy fp then Inr fp
       else andThen (to_str fileName) (\<lambda>f.
              Inr (JStr (resolve e CONTROLLER_DEFAULT_DIR (f @ ''.js'')))))))"

text \<open>Lines 50--74.\<close>

definition Controller :: "env \<Rightarrow> jsval \<Rightarrow> jsval \<Rightarrow> state \<Rightarrow> error + state" where
  "Controller e Model options s =
     andThen (if truthy Model then get_prop s Model ''sharedClass'' else Inr Model) (\<lambda>shared.
       if truthy shared then
         andThen (get_prop s options ''_meta'') (\<lambda>m.
         case or_new m (new_object []) s of (meta, s1) \<Rightarrow>
         andThen (controller_path e Model meta s1) (\<lambda>filePath.
         case alloc (new_array []) s1 of (controllers, s2) \<Rightarrow>
         andThen (require e filePath Model controllers s2) (\<lambda>s3.
         andThen (own_keys s3 controllers) (\<lambda>keys.
         andThen (map_controllers controllers keys s3) (\<lambda>(cs, s4).
         andThen (loadController Model cs s4) (\<lambda>s5.
         andThen (get_prop s5 options ''blacklist'') (\<lambda>b.
         case or_new b (new_array []) s5 of (bl, s6) \<Rightarrow>
         andThen (get_prop s6 options ''whitelist'') (\<lambda>w.
         case or_new w (new_object []) s6 of (wl, s7) \<Rightarrow>
           hideEndpoints Model bl wl s7))))))))
       else Inr s)"

text \<open>
  A state made of the given objects, all extensible, at the addresses \<open>0, 1, \<dots>\<close>, for
  examples.
\<close>

definition mk_state :: "jsobj list \<Rightarrow> state" where
  "mk_state obs =
     \<lparr>heap = (\<lambda>a. if a < length obs then obs ! a else new_object []),
      nxt = length obs, calls = [], integrity = (\<lambda>a. Extensible)\<rparr>"

definition new_function :: jsobj where
  "new_function = \<lparr>kind = Function, elems = [], props = []\<rparr>"

section \<open>Notions used to state the properties\<close>

text \<open>
  \<open>frame W s s'\<close>: from \<open>s\<close> to \<open>s'\<close> objects may have been allocated, and of the
  objects of \<open>s\<close> only the properties in \<open>W\<close> (pairs of an address and a property
  name) may have been written; no array element, no kind, no level and no recorded call
  changed.
\<close>

definition frame :: "(nat \<times> string) set \<Rightarrow> state \<Rightarrow> state \<Rightarrow> bool" where
  "frame W s s' \<longleftrightarrow>
     nxt s \<le> nxt s' \<and> calls s' = calls s \<and>
     (\<forall>a<nxt s. kind (heap s' a) = kind (heap s a) \<and> elems (heap s' a) = elems (heap s a) \<and>
        integrity s' a = integrity s a \<and>
        (\<forall>k. (a, k) \<notin> W \<longrightarrow> lookup s' a k = lookup s a k))"

text \<open>A reference is allocated when it points below the allocation pointer.\<close>

definition allocated :: "state \<Rightarrow> jsval \<Rightarrow> bool" where
  "allocated s v = (case v of JRef a \<Rightarrow> a < nxt s | _ \<Rightarrow> True)"

text \<open>\<^verbatim>\<open>v || x\<close> on values.\<close>

definition dflt :: "jsval \<Rightarrow> jsval \<Rightarrow> jsval" where
  "dflt v x = (if truthy v then v else x)"

text \<open>
  \<open>defaulted nm E s s'\<close>: \<open>s'\<close> is \<open>s\<close> with \<^verbatim>\<open>property\<close> defaulted to \<open>nm\<close> and
  \<^verbatim>\<open>principalType\<close> defaulted to \<^verbatim>\<open>'ROLE'\<close> in every object referenced from \<open>E\<close>, and
  nothing else changed.
\<close>

definition defaulted :: "string \<Rightarrow> jsval set \<Rightarrow> state \<Rightarrow> state \<Rightarrow> bool" where
  "defaulted nm E s s' \<longleftrightarrow>
     nxt s' = nxt s \<and> calls s' = calls s \<and> integrity s' = integrity s \<and>
     (\<forall>b. kind (heap s' b) = kind (heap s b) \<and> elems (heap s' b) = elems (heap s b)) \<and>
     (\<forall>b k. lookup s' b k =
           (if JRef b \<in> E \<and> k = ''property'' then dflt (lookup s b k) (JStr nm)
            else if JRef b \<in> E \<and> k = ''principalType'' then dflt (lookup s b k) (JStr ''ROLE'')
            else lookup s b k))"

text \<open>The property names \<^verbatim>\<open>prepare\<close> writes after it has set \<^verbatim>\<open>isStatic\<close>.\<close>

definition written_keys :: "string set" where
  "written_keys = {''http'', ''verb'', ''path'', ''description'', ''accepts'', ''returns'',
                   ''acls'', ''property'', ''principalType''}"

text \<open>What a run of \<^verbatim>\<open>prepare\<close> returned, and what an object looks like after it.\<close>

definition descriptor_of :: "error + (descriptor \<times> state) \<Rightarrow> error + descriptor" where
  "descriptor_of r = map_sum id fst r"

definition object_after :: "error + (descriptor \<times> state) \<Rightarrow> nat \<Rightarrow> jsobj option" where
  "object_after r a = (case r of Inl e \<Rightarrow> None | Inr (d, s) \<Rightarrow> Some (heap s a))"



definition disabled_of :: "error + state \<Rightarrow> jsval list" where
  "disabled_of r = (case r of Inl e \<Rightarrow> [] | Inr s \<Rightarrow> disabled (calls s))"

subsection \<open>Example states\<close>

text \<open>
  \<^verbatim>\<open>{name: 'login', verb: 'POST', path: '/login', handler: fn}\<close> at address 0, its
  handler at address 1.
\<close>

definition ex_login :: state where
  "ex_login = mk_state
     [new_object [(''name'', JStr ''login''), (''verb'', JStr ''POST''), (''path'', JStr ''/login''),
                  (''handler'', JRef 1)],
      new_function]"

text \<open>\<^verbatim>\<open>{name: 'ping', verb: 'get', isStatic: false, handler: fn}\<close>.\<close>

definition ex_ping :: state where
  "ex_ping = mk_state
     [new_object [(''name'', JStr ''ping''), (''verb'', JStr ''get''), (''isStatic'', JBool False),
                  (''handler'', JRef 1)],
      new_function]"

text \<open>
  \<^verbatim>\<open>{name: 'login', verb: 'POST', handler: fn, acls: {principalType: 'USER', permission:
  'ALLOW'}}\<close>: a single ACL object, at address 2.
\<close>

definition ex_acl :: state where
  "ex_acl = mk_state
     [new_object [(''name'', JStr ''login''), (''verb'', JStr ''POST''), (''handler'', JRef 1),
                  (''acls'', JRef 2)],
      new_function,
      new_object [(''principalType'', JStr ''USER''), (''permission'', JStr ''ALLOW'')]]"

text \<open>
  The same definition with \<^verbatim>\<open>acls: [{principalId: 'admin', permission: 'ALLOW'},
  {principalType: 'USER', principalId: '7', permission: 'DENY'}]\<close>: the array is at
  address 2, its entries at 3 and 4.
\<close>

definition ex_acl_array :: state where
  "ex_acl_array = mk_state
     [new_object [(''name'', JStr ''login''), (''verb'', JStr ''POST''), (''handler'', JRef 1),
                  (''acls'', JRef 2)],
      new_function,
      new_array [JRef 3, JRef 4],
      new_object [(''principalId'', JStr ''admin''), (''permission'', JStr ''ALLOW'')],
      new_object [(''principalType'', JStr ''USER''), (''principalId'', JStr ''7''),
                  (''permission'', JStr ''DENY'')]]"

text \<open>\<^verbatim>\<open>{name: 'ping', isStatic: false, handler: fn}\<close>: no verb.\<close>

definition ex_no_verb :: state where
  "ex_no_verb = mk_state
     [new_object [(''name'', JStr ''ping''), (''isStatic'', JBool False), (''handler'', JRef 1)],
      new_function]"

text \<open>\<^verbatim>\<open>{name: 'ping'}\<close>: neither a verb nor a handler.\<close>

definition ex_name_only :: state where
  "ex_name_only = mk_state [new_object [(''name'', JStr ''ping'')]]"

text \<open>
  A model (address 0) whose settings declare the relations \<^verbatim>\<open>orders\<close> and
  \<^verbatim>\<open>tags\<close>; the whitelist \<^verbatim>\<open>{relations: ['orders']}\<close> is at address 6 and the
  empty blacklist at address 8.
\<close>

definition ex_relations :: state where
  "ex_relations = mk_state
     [\<lparr>kind = Function, elems = [], props = [(''definition'', JRef 1)]\<rparr>,
      new_object [(''settings'', JRef 2)],
      new_object [(''relations'', JRef 3)],
      new_object [(''orders'', JRef 4), (''tags'', JRef 5)],
      new_object [],
      new_object [],
      new_object [(''relations'', JRef 7)],
      new_array [JStr ''orders''],
      new_array []]"



text \<open>An environment whose controller file cannot be loaded.\<close>

definition ex_env :: env where
  "ex_env = \<lparr>kebabCase = (\<lambda>s v. ''model''), resolve = (\<lambda>dir file. dir @ file),
             require = (\<lambda>p m c s. Inl (Error ''Cannot find module''))\<rparr>"

text \<open>
  \<^verbatim>\<open>{name: 'login', verb: 'POST', handler: fn, acls: {property: '', principalType: 0,
  permission: 'ALLOW'}}\<close>: the ACL object has both properties, with falsy values.
\<close>

definition ex_acl_empty :: state where
  "ex_acl_empty = mk_state
     [new_object [(''name'', JStr ''login''), (''verb'', JStr ''POST''), (''handler'', JRef 1),
                  (''acls'', JRef 2)],
      new_function,
      new_object [(''property'', JStr ''''), (''principalType'', JNum 0),
                  (''permission'', JStr ''ALLOW'')]]"

text \<open>
  \<^verbatim>\<open>Object.freeze\<close> applied to the object at an address, and the definition of
  \<^verbatim>\<open>ex_login\<close> frozen.
\<close>

definition freeze :: "nat \<Rightarrow> state \<Rightarrow> state" where
  "freeze a s = s\<lparr>integrity := (integrity s)(a := Frozen)\<rparr>"

definition ex_frozen :: state where
  "ex_frozen = freeze 0 ex_login"

section \<open>Basic facts\<close>

lemma andThen_simps [simp]:
  "andThen (Inr x) f = f x" "andThen (Inl e) f = Inl e"
  by (simp_all add: andThen_def)

lemma andThen_Inr: "andThen m f = Inr r \<longleftrightarrow> (\<exists>x. m = Inr x \<and> f x = Inr r)"
  by (cases m) simp_all

lemma andThenE:
  assumes "andThen m f = Inr r"
  obtains x where "m = Inr x" "f x = Inr r"
  using assms by (auto simp: andThen_Inr)

lemma case_prodE2:
  assumes "(case p of (a, b) \<Rightarrow> f a b) = Inr r"
  obtains a b where "p = (a, b)" "f a b = Inr r"
  using assms by (cases p) auto

lemma get_prop_ref [simp]: "get_prop s (JRef a) k = Inr (lookup s a k)"
  by (simp add: get_prop_def)

lemma set_prop_ref [simp]:
  "set_prop s (JRef a) k x = (if writable s a k then Inr (put s a k x) else Inl TypeError)"
  by (simp add: set_prop_def)

lemma set_prop_Inr:
  "set_prop s v k x = Inr s' \<longleftrightarrow> (\<exists>a. v = JRef a \<and> writable s a k \<and> s' = put s a k x)"
  by (cases v) (auto simp: set_prop_def)

lemma writable_Extensible [simp]: "integrity s a = Extensible \<Longrightarrow> writable s a k"
  by (simp add: writable_def)

lemma lookup_put: "lookup (put s a k x) b j = (if b = a \<and> j = k then x else lookup s b j)"
  by (simp add: lookup_def put_def update_conv')

lemma put_fields [simp]:
  "nxt (put s a k x) = nxt s" "calls (put s a k x) = calls s"
  "integrity (put s a k x) = integrity s"
  "kind (heap (put s a k x) b) = kind (heap s b)"
  "elems (heap (put s a k x) b) = elems (heap s b)"
  by (simp_all add: put_def)

lemma props_put: "props (heap (put s a k x) b) =
    (if b = a then AList.update k x (props (heap s a)) else props (heap s b))"
  by (simp add: put_def)

lemma alloc_eq: "alloc ob s = (v, s') \<longleftrightarrow> v = JRef (nxt s) \<and> s' = snd (alloc ob s)"
  by (auto simp: alloc_def)

lemma alloc_fields [simp]:
  "nxt (snd (alloc ob s)) = Suc (nxt s)" "calls (snd (alloc ob s)) = calls s"
  "integrity (snd (alloc ob s)) a = (if a = nxt s then Extensible else integrity s a)"
  "fst (alloc ob s) = JRef (nxt s)"
  "heap (snd (alloc ob s)) a = (if a = nxt s then ob else heap s a)"
  by (simp_all add: alloc_def)

lemma lookup_alloc: "lookup (snd (alloc ob s)) a k =
    (if a = nxt s then (case map_of (props ob) k of None \<Rightarrow> JUndefined | Some v \<Rightarrow> v)
     else lookup s a k)"
  by (simp add: lookup_def)

lemma lookup_mk_state:
  "lookup (mk_state obs) a k =
     (case map_of (props (if a < length obs then obs ! a else new_object [])) k of
        None \<Rightarrow> JUndefined | Some v \<Rightarrow> v)"
  by (simp add: lookup_def mk_state_def)

lemma mk_state_fields [simp]:
  "nxt (mk_state obs) = length obs" "calls (mk_state obs) = []"
  "integrity (mk_state obs) a = Extensible"
  "heap (mk_state obs) a = (if a < length obs then obs ! a else new_object [])"
  by (simp_all add: mk_state_def)

lemma lookup_freeze [simp]: "lookup (freeze a s) b k = lookup s b k"
  by (simp add: lookup_def freeze_def)

lemma freeze_fields [simp]:
  "nxt (freeze a s) = nxt s" "heap (freeze a s) = heap s" "calls (freeze a s) = calls s"
  "integrity (freeze a s) b = (if b = a then Frozen else integrity s b)"
  by (simp_all add: freeze_def)

lemma dflt_idem [simp]: "dflt (dflt v x) x = dflt v x"
  by (simp add: dflt_def)

subsection \<open>Frames\<close>

lemma frame_refl [simp]: "frame W s s"
  by (simp add: frame_def)

lemma frame_mono: "frame W s s' \<Longrightarrow> W \<subseteq> W' \<Longrightarrow> frame W' s s'"
  by (auto simp: frame_def)

lemma frame_trans: "frame W1 s s1 \<Longrightarrow> frame W2 s1 s2 \<Longrightarrow> frame (W1 \<union> W2) s s2"
  unfolding frame_def by (metis Un_iff le_trans less_le_trans)

lemma frame_step:
  "frame W1 s s1 \<Longrightarrow> frame W2 s1 s2 \<Longrightarrow> W1 \<subseteq> W \<Longrightarrow> W2 \<subseteq> W \<Longrightarrow> frame W s s2"
  by (meson frame_mono frame_trans Un_least)


lemma frame_put: "frame {(a, k)} s (put s a k x)"
  by (simp add: frame_def lookup_put)

lemma frame_alloc: "frame {} s (snd (alloc ob s))"
  by (simp add: frame_def lookup_alloc)

lemma frame_lookup:
  "frame W s s' \<Longrightarrow> a < nxt s \<Longrightarrow> (a, k) \<notin> W \<Longrightarrow> lookup s' a k = lookup s a k"
  by (simp add: frame_def)

lemma frame_nxt: "frame W s s' \<Longrightarrow> nxt s \<le> nxt s'"
  by (simp add: frame_def)

lemma or_new_frame: "or_new v ob s = (x, s') \<Longrightarrow> frame {} s s'"
  by (auto simp: or_new_def alloc_eq frame_alloc split: if_splits)

lemma or_new_cases:
  "or_new v ob s = (x, s') \<Longrightarrow>
     (truthy v \<and> x = v \<and> s' = s) \<or> (\<not> truthy v \<and> x = JRef (nxt s) \<and> s' = snd (alloc ob s))"
  by (auto simp: or_new_def alloc_eq split: if_splits)

lemma set_prop_frame: "set_prop s (JRef a) k x = Inr s' \<Longrightarrow> frame {(a, k)} s s'"
  by (auto intro: frame_put split: if_splits)

lemma frame_integrity: "frame W s s' \<Longrightarrow> a < nxt s \<Longrightarrow> integrity s' a = integrity s a"
  by (simp add: frame_def)

lemma or_new_integrity:
  "or_new v ob s = (x, s') \<Longrightarrow> integrity s a = Extensible \<Longrightarrow> integrity s' a = Extensible"
  by (auto simp: or_new_def alloc_eq split: if_splits)

section \<open>The stages of \<^verbatim>\<open>prepare\<close>\<close>

lemma prepare_options_frame:
  "prepare_options d s = Inr (rm, s1) \<Longrightarrow> frame {} s s1"
  by (auto simp: prepare_options_def andThen_Inr dest: or_new_frame)

lemma prepare_isStatic_ref: "prepare_isStatic d s = Inr s' \<Longrightarrow> \<exists>a. d = JRef a"
  by (cases d) (auto simp: prepare_isStatic_def get_prop_def set_prop_def split: if_splits)

lemma prepare_isStatic_frame:
  "prepare_isStatic (JRef a) s = Inr s1 \<Longrightarrow> frame {(a, ''isStatic'')} s s1"
  by (auto simp: prepare_isStatic_def split: if_splits intro: frame_put)

lemma prepare_isStatic_value:
  "prepare_isStatic (JRef a) s = Inr s1 \<Longrightarrow>
     lookup s1 a ''isStatic'' =
       (if lookup s a ''isStatic'' = JUndefined \<or> lookup s a ''isStatic'' = JNull then JBool True
        else lookup s a ''isStatic'')"
  by (auto simp: prepare_isStatic_def lookup_put split: if_splits)

lemma prepare_http_frame:
  assumes "prepare_http d (JRef r) s = Inr s'"
  shows "frame ({(r, ''http'')} \<union> {h. lookup s r ''http'' = JRef h} \<times> {''verb'', ''path''}) s s'"
  using assms
  by (auto simp: prepare_http_def andThen_Inr set_prop_Inr alloc_eq frame_def lookup_put
        lookup_alloc new_object_def split: if_splits prod.splits)

text \<open>A string verb is stored in lower case, and \<^verbatim>\<open>'get'\<close> stands in for the empty string.\<close>

lemma prepare_http_verb:
  assumes "prepare_http (JRef d) (JRef r) s = Inr s'" "lookup s d ''verb'' = JStr v" "d < nxt s"
  shows "\<exists>h. lookup s' r ''http'' = JRef h \<and>
           lookup s' h ''verb'' = JStr (if v = [] then ''get'' else map lower_char v)"
  using assms
  by (auto simp: prepare_http_def andThen_Inr set_prop_Inr alloc_eq lookup_put lookup_alloc
        toLowerCase_def split: if_splits prod.splits)

lemma prepare_schema_ref: "prepare_schema d rm s = Inr s' \<Longrightarrow> \<exists>r. rm = JRef r"
  unfolding prepare_schema_def by (elim andThenE case_prodE2) (auto simp: set_prop_Inr)

lemma prepare_schema_frame:
  assumes "prepare_schema d (JRef r) s = Inr s'"
  shows "frame ({r} \<times> {''description'', ''accepts'', ''returns''}) s s'"
proof -
  let ?W = "{r} \<times> {''description'', ''accepts'', ''returns''}"
  from assms obtain dv s1 acc v sA s2 ret w sB where
    1: "(if truthy dv then set_prop s (JRef r) ''description'' dv else Inr s) = Inr s1" and
    2: "or_new acc (new_array []) s1 = (v, sA)" and
    3: "set_prop sA (JRef r) ''accepts'' v = Inr s2" and
    4: "or_new ret (new_object [(''root'', JBool True), (''type'', JStr ''object'')]) s2 = (w, sB)" and
    5: "set_prop sB (JRef r) ''returns'' w = Inr s'"
    unfolding prepare_schema_def by (elim andThenE case_prodE2) blast
  from 1 have f1: "frame ?W s s1"
    by (auto split: if_splits intro: frame_mono[OF frame_put])
  have f2: "frame ?W s1 s2"
    by (rule frame_step[OF or_new_frame[OF 2] set_prop_frame[OF 3]]) auto
  have f3: "frame ?W s2 s'"
    by (rule frame_step[OF or_new_frame[OF 4] set_prop_frame[OF 5]]) auto
  show ?thesis
    using frame_trans[OF frame_trans[OF f1 f2] f3] by simp
qed

lemma prepare_acls_frame:
  "prepare_acls (JRef a) s = Inr s1 \<Longrightarrow> frame {(a, ''acls'')} s s1"
  by (auto simp: prepare_acls_def andThen_Inr alloc_eq split: if_splits prod.splits
           intro!: frame_step[OF frame_alloc frame_put])

subsection \<open>The ACL defaults\<close>

lemma acl_default_ref:
  "acl_default nm acl s = Inr (x, s') \<Longrightarrow> \<exists>a. acl = JRef a"
  by (cases acl) (auto simp: acl_default_def get_prop_def set_prop_def split: if_splits)

lemma acl_default_defaulted:
  assumes "acl_default nm (JRef a) s = Inr (x, s')"
  shows "x = JRef a \<and> defaulted nm {JRef a} s s'"
proof -
  define s1 where
    "s1 = (if \<not> truthy (lookup s a ''property'') then put s a ''property'' (JStr nm) else s)"
  have s': "s' = (if \<not> truthy (lookup s1 a ''principalType'')
                  then put s1 a ''principalType'' (JStr ''ROLE'') else s1)"
    and x: "x = JRef a"
    using assms by (auto simp: acl_default_def s1_def split: if_splits)
  have l1: "lookup s1 b k =
      (if b = a \<and> k = ''property'' then dflt (lookup s b k) (JStr nm) else lookup s b k)" for b k
    by (simp add: s1_def lookup_put dflt_def)
  have l2: "lookup s' b k =
      (if b = a \<and> k = ''principalType'' then dflt (lookup s1 b k) (JStr ''ROLE'')
       else lookup s1 b k)" for b k
    by (simp add: s' lookup_put dflt_def)
  have "nxt s' = nxt s" "calls s' = calls s" "integrity s' = integrity s"
    "kind (heap s' b) = kind (heap s b)" "elems (heap s' b) = elems (heap s b)" for b
    by (simp_all add: s' s1_def)
  with x show ?thesis
    unfolding defaulted_def by (simp add: l1 l2)
qed

lemma defaulted_trans:
  assumes "defaulted nm {e} s s1" "defaulted nm E s1 s2"
  shows "defaulted nm (insert e E) s s2"
proof -
  have "lookup s2 b k =
           (if JRef b \<in> insert e E \<and> k = ''property'' then dflt (lookup s b k) (JStr nm)
            else if JRef b \<in> insert e E \<and> k = ''principalType''
                 then dflt (lookup s b k) (JStr ''ROLE'')
            else lookup s b k)" for b k
    using assms unfolding defaulted_def by simp
  with assms show ?thesis
    unfolding defaulted_def by simp
qed

text \<open>
  The map over any list of entries: every entry is an object, the result is the list
  itself, and each object gets its two defaults once, whatever the other entries are
  (also when one object occurs twice).
\<close>

lemma map_acls_defaulted:
  "map_acls nm es s = Inr (xs, s') \<Longrightarrow>
     xs = es \<and> (\<forall>e\<in>set es. \<exists>a. e = JRef a) \<and> defaulted nm (set es) s s'"
proof (induction es arbitrary: s xs)
  case Nil
  then show ?case by (simp add: defaulted_def)
next
  case (Cons e es)
  from Cons.prems obtain x s1 ys where
    1: "acl_default nm e s = Inr (x, s1)" and
    2: "map_acls nm es s1 = Inr (ys, s')" and
    3: "xs = x # ys"
    by (auto elim!: andThenE case_prodE2)
  from acl_default_ref[OF 1] obtain a where e: "e = JRef a" ..
  from acl_default_defaulted[OF 1[unfolded e]] e
  have a: "x = e" "defaulted nm {e} s s1" by simp_all
  from Cons.IH[OF 2]
  have b: "ys = es" "\<forall>e\<in>set es. \<exists>a. e = JRef a" "defaulted nm (set es) s1 s'" by simp_all
  have "defaulted nm (set (e # es)) s s'"
    using defaulted_trans[OF a(2) b(3)] by simp
  with a b 3 e show ?case by simp
qed

lemma defaulted_frame:
  "defaulted nm E s s' \<Longrightarrow> frame ({b. JRef b \<in> E} \<times> {''property'', ''principalType''}) s s'"
  unfolding defaulted_def frame_def by simp

lemma prepare_map_acls_defaulted:
  assumes "prepare_map_acls nm (JRef a) s = Inr (xs, s')"
  shows "array_method s (lookup s a ''acls'') ''map'' = Inr xs \<and>
         (\<forall>e\<in>set xs. \<exists>b. e = JRef b) \<and> defaulted nm (set xs) s s'"
  using assms unfolding prepare_map_acls_def
  by (elim andThenE) (auto dest!: map_acls_defaulted)

subsection \<open>The whole function\<close>

lemma prepareE:
  assumes "prepare d s0 = Inr (desc, s6)"
  obtains a r s1 s2 nm s3 s4 s5 hs where
    "d = JRef a"
    "prepare_options d s0 = Inr (JRef r, s1)"
    "prepare_isStatic d s1 = Inr s2"
    "prepare_name d s2 = Inr nm"
    "prepare_http d (JRef r) s2 = Inr s3"
    "prepare_schema d (JRef r) s3 = Inr s4"
    "prepare_acls d s4 = Inr s5"
    "prepare_map_acls nm d s5 = Inr (acls desc, s6)"
    "prepare_hooks d s6 = Inr hs"
    "desc = \<lparr>name = nm, isStatic = lookup s6 a ''isStatic'', remoteMethod = JRef r,
             acls = acls desc, handler = lookup s6 a ''handler'', hooks = hs\<rparr>"
proof -
  from assms obtain rm s1 s2 nm s3 s4 s5 as hs st h where
    1: "prepare_options d s0 = Inr (rm, s1)" and
    2: "prepare_isStatic d s1 = Inr s2" and
    3: "prepare_name d s2 = Inr nm" and
    4: "prepare_http d rm s2 = Inr s3" and
    5: "prepare_schema d rm s3 = Inr s4" and
    6: "prepare_acls d s4 = Inr s5" and
    7: "prepare_map_acls nm d s5 = Inr (as, s6)" and
    8: "prepare_hooks d s6 = Inr hs" and
    9: "get_prop s6 d ''isStatic'' = Inr st" and
    10: "get_prop s6 d ''handler'' = Inr h" and
    11: "desc = \<lparr>name = nm, isStatic = st, remoteMethod = rm, acls = as, handler = h,
                 hooks = hs\<rparr>"
    unfolding prepare_def by (elim andThenE case_prodE2) auto
  from prepare_isStatic_ref[OF 2] obtain a where a: "d = JRef a" ..
  from prepare_schema_ref[OF 5] obtain r where r: "rm = JRef r" ..
  show thesis
    using 1 2 3 4 5 6 7 8 9 10 11 a r by (intro that[of a r s1 s2 nm s3 s4 s5 hs]) auto
qed

lemma prepare_frame_head:
  assumes "prepare_options (JRef a) s0 = Inr (rm, s1)" "prepare_isStatic (JRef a) s1 = Inr s2"
  shows "frame {(a, ''isStatic'')} s0 s2"
  using frame_trans[OF prepare_options_frame[OF assms(1)] prepare_isStatic_frame[OF assms(2)]]
  by simp

lemma prepare_frame_tail:
  assumes "prepare_http (JRef a) (JRef r) s2 = Inr s3"
    "prepare_schema (JRef a) (JRef r) s3 = Inr s4"
    "prepare_acls (JRef a) s4 = Inr s5"
    "prepare_map_acls nm (JRef a) s5 = Inr (xs, s6)"
  shows "frame (UNIV \<times> written_keys) s2 s6"
proof -
  let ?W = "UNIV \<times> written_keys"
  have 1: "frame ?W s2 s3"
    by (rule frame_mono[OF prepare_http_frame[OF assms(1)]]) (auto simp: written_keys_def)
  have 2: "frame ?W s3 s4"
    by (rule frame_mono[OF prepare_schema_frame[OF assms(2)]]) (auto simp: written_keys_def)
  have 3: "frame ?W s4 s5"
    by (rule frame_mono[OF prepare_acls_frame[OF assms(3)]]) (auto simp: written_keys_def)
  from prepare_map_acls_defaulted[OF assms(4)] have d: "defaulted nm (set xs) s5 s6" by simp
  have 4: "frame ?W s5 s6"
    by (rule frame_mono[OF defaulted_frame[OF d]]) (auto simp: written_keys_def)
  show ?thesis
    using frame_trans[OF frame_trans[OF frame_trans[OF 1 2] 3] 4] by simp
qed

lemma heap_put:
  "heap (put s a k x) b =
     (if b = a then (heap s a)\<lparr>props := AList.update k x (props (heap s a))\<rparr> else heap s b)"
  by (simp add: put_def)

lemma prepare_name_value:
  assumes "prepare_name (JRef a) s = Inr nm" "lookup s a ''name'' = JStr n"
  shows "nm = (if truthy (lookup s a ''isStatic'') then ''endpoint:'' @ n
               else ''prototype.endpoint:'' @ n)"
  using assms
  by (auto simp: prepare_name_def getEndpointName_def to_str_def CONTROLLER_NAME_PREFIX_def)

lemma array_method_fresh:
  "d \<noteq> nxt s \<Longrightarrow>
   array_method (put (snd (alloc (new_array es) s)) d k x) (JRef (nxt s)) m = Inr es"
  by (simp add: array_method_def props_put new_array_def)

lemma array_method_object:
  "array_method s v m = Inr xs \<Longrightarrow> truthy v \<and> typeof s v = ''object''"
  by (cases v) (auto simp: array_method_def typeof_def split: option.splits if_splits)

text \<open>
  What \<^verbatim>\<open>definition.acls.map\<close> runs over: the one-element array around the value of
  \<^verbatim>\<open>definition.acls\<close> when that is truthy (an object or an array), nothing otherwise.
\<close>

lemma prepare_acls_elems:
  assumes "prepare_acls (JRef d) s = Inr s'" "d < nxt s"
    "array_method s' (lookup s' d ''acls'') ''map'' = Inr xs"
  shows "xs = (if truthy (lookup s d ''acls'') then [lookup s d ''acls''] else [])"
proof -
  let ?a = "lookup s d ''acls''"
  from assms(2) have ne: "d \<noteq> nxt s" by simp
  consider (obj) "truthy ?a" "typeof s ?a = ''object''" | (none) "\<not> truthy ?a"
    | (other) "truthy ?a" "typeof s ?a \<noteq> ''object''" by blast
  then show ?thesis
  proof cases
    case obj
    with assms(1) have s': "s' = put (snd (alloc (new_array [?a]) s)) d ''acls'' (JRef (nxt s))"
      by (simp add: prepare_acls_def alloc_eq split: prod.splits if_splits)
    from assms(3) obj show ?thesis
      unfolding s' by (simp add: lookup_put array_method_fresh[OF ne])
  next
    case none
    with assms(1) have s': "s' = put (snd (alloc (new_array []) s)) d ''acls'' (JRef (nxt s))"
      by (simp add: prepare_acls_def alloc_eq split: prod.splits if_splits)
    from assms(3) none show ?thesis
      unfolding s' by (simp add: lookup_put array_method_fresh[OF ne])
  next
    case other
    with assms(1) have "s' = s" by (simp add: prepare_acls_def)
    with assms(3) other array_method_object[of s ?a "''map''" xs] show ?thesis by simp
  qed
qed

text \<open>The states a successful run goes through, and what each step may have written.\<close>

lemma prepare_run:
  assumes "prepare (JRef d) s = Inr (desc, s')" "d < nxt s"
  obtains r s1 s2 s3 s4 s5 where
    "prepare_options (JRef d) s = Inr (JRef r, s1)"
    "prepare_isStatic (JRef d) s1 = Inr s2"
    "prepare_name (JRef d) s2 = Inr (name desc)"
    "prepare_http (JRef d) (JRef r) s2 = Inr s3"
    "prepare_schema (JRef d) (JRef r) s3 = Inr s4"
    "prepare_acls (JRef d) s4 = Inr s5"
    "prepare_map_acls (name desc) (JRef d) s5 = Inr (acls desc, s')"
    "prepare_hooks (JRef d) s' = Inr (hooks desc)"
    "isStatic desc = lookup s' d ''isStatic''"
    "handler desc = lookup s' d ''handler''"
    "remoteMethod desc = JRef r"
    "frame {(d, ''isStatic'')} s s2"
    "frame (UNIV \<times> {''http'', ''verb'', ''path'', ''description'', ''accepts'', ''returns''}) s2 s4"
    "frame {(d, ''acls'')} s4 s5"
    "defaulted (name desc) (set (acls desc)) s5 s'"
proof -
  from assms(1) obtain a r s1 s2 nm s3 s4 s5 hs where
    a: "JRef d = JRef a" and
    o: "prepare_options (JRef d) s = Inr (JRef r, s1)" and
    i: "prepare_isStatic (JRef d) s1 = Inr s2" and
    n: "prepare_name (JRef d) s2 = Inr nm" and
    h: "prepare_http (JRef d) (JRef r) s2 = Inr s3" and
    c: "prepare_schema (JRef d) (JRef r) s3 = Inr s4" and
    l: "prepare_acls (JRef d) s4 = Inr s5" and
    m: "prepare_map_acls nm (JRef d) s5 = Inr (acls desc, s')" and
    k: "prepare_hooks (JRef d) s' = Inr hs" and
    desc: "desc = \<lparr>name = nm, isStatic = lookup s' a ''isStatic'', remoteMethod = JRef r,
             acls = acls desc, handler = lookup s' a ''handler'', hooks = hs\<rparr>"
    by (rule prepareE)
  from a have [simp]: "a = d" by simp
  have nm: "name desc = nm" and hs: "hooks desc = hs"
    and st: "isStatic desc = lookup s' d ''isStatic''"
    and hd: "handler desc = lookup s' d ''handler''"
    and rm: "remoteMethod desc = JRef r"
    by (subst desc, simp)+
  let ?K = "UNIV \<times> {''http'', ''verb'', ''path'', ''description'', ''accepts'', ''returns''}"
  have f3: "frame ?K s2 s3"
    by (rule frame_mono[OF prepare_http_frame[OF h]]) auto
  have f4: "frame ?K s3 s4"
    by (rule frame_mono[OF prepare_schema_frame[OF c]]) auto
  have f34: "frame ?K s2 s4"
    using frame_trans[OF f3 f4] by simp
  from prepare_map_acls_defaulted[OF m] have df: "defaulted nm (set (acls desc)) s5 s'" by simp
  show thesis
    using o i n h c l m k st hd rm prepare_frame_head[OF o i] f34 prepare_acls_frame[OF l] df
    unfolding nm[symmetric] hs[symmetric] by (rule that)
qed

lemma defaulted_lookup:
  "defaulted nm E s s' \<Longrightarrow> k \<noteq> ''property'' \<Longrightarrow> k \<noteq> ''principalType'' \<Longrightarrow>
     lookup s' a k = lookup s a k"
  by (simp add: defaulted_def)

lemma prepare_lookup_s4:
  assumes "frame {(d, ''isStatic'')} s s2"
    "frame (UNIV \<times> {''http'', ''verb'', ''path'', ''description'', ''accepts'', ''returns''}) s2 s4"
    "a < nxt s"
    "k \<notin> {''isStatic'', ''http'', ''verb'', ''path'', ''description'', ''accepts'', ''returns''}"
  shows "lookup s4 a k = lookup s a k"
proof -
  from assms(1,3) have "a < nxt s2" by (auto dest: frame_nxt)
  with assms show ?thesis
    by (simp add: frame_lookup[OF assms(2)] frame_lookup[OF assms(1)])
qed

subsection \<open>What a run writes, and when it succeeds\<close>




lemma frame_kind: "frame W s s' \<Longrightarrow> a < nxt s \<Longrightarrow> kind (heap s' a) = kind (heap s a)"
  by (simp add: frame_def)

lemma prepare_http_total:
  assumes "lookup s d ''verb'' = JStr v" "d < nxt s" "integrity s r = Extensible"
    "\<not> truthy (lookup s r ''http'') \<or>
     (\<exists>h. lookup s r ''http'' = JRef h \<and> integrity s h = Extensible)"
  shows "\<exists>s'. prepare_http (JRef d) (JRef r) s = Inr s'"
  using assms
  by (auto simp: prepare_http_def toLowerCase_def alloc_eq lookup_put lookup_alloc
        split: prod.splits)

lemma prepare_isStatic_total:
  "integrity s d = Extensible \<Longrightarrow> \<exists>s'. prepare_isStatic (JRef d) s = Inr s'"
  by (simp add: prepare_isStatic_def)

lemma prepare_schema_total:
  assumes "integrity s r = Extensible"
  shows "\<exists>s'. prepare_schema (JRef d) (JRef r) s = Inr s'"
proof -
  let ?ret = "new_object [(''root'', JBool True), (''type'', JStr ''object'')]"
  have "\<exists>s1. (if truthy (lookup s d ''description'')
              then set_prop s (JRef r) ''description'' (lookup s d ''description'')
              else Inr s) = Inr s1 \<and> integrity s1 r = Extensible"
    using assms by simp
  then obtain s1 where 1: "(if truthy (lookup s d ''description'')
              then set_prop s (JRef r) ''description'' (lookup s d ''description'')
              else Inr s) = Inr s1" and e1: "integrity s1 r = Extensible"
    by (elim exE conjE)
  obtain v sA where 2: "or_new (lookup s1 d ''accepts'') (new_array []) s1 = (v, sA)"
    by (cases "or_new (lookup s1 d ''accepts'') (new_array []) s1")
  define s2 where "s2 = put sA r ''accepts'' v"
  have 3: "(case or_new (lookup s1 d ''accepts'') (new_array []) s1 of
              (v, s') \<Rightarrow> set_prop s' (JRef r) ''accepts'' v) = Inr s2"
    using or_new_integrity[OF 2 e1] by (simp add: 2 s2_def)
  have e2: "integrity s2 r = Extensible"
    using or_new_integrity[OF 2 e1] by (simp add: s2_def)
  obtain w sB where 4: "or_new (lookup s2 d ''returns'') ?ret s2 = (w, sB)"
    by (cases "or_new (lookup s2 d ''returns'') ?ret s2")
  have 5: "(case or_new (lookup s2 d ''returns'') ?ret s2 of
              (v, s') \<Rightarrow> set_prop s' (JRef r) ''returns'' v) = Inr (put sB r ''returns'' w)"
    using or_new_integrity[OF 4 e2] by (simp add: 4)
  have "prepare_schema (JRef d) (JRef r) s = Inr (put sB r ''returns'' w)"
    unfolding prepare_schema_def by (simp only: get_prop_ref andThen_simps 1 3 5)
  then show ?thesis ..
qed

lemma prepare_acls_total:
  "integrity s d = Extensible \<Longrightarrow> \<exists>s'. prepare_acls (JRef d) s = Inr s'"
  by (simp add: prepare_acls_def alloc_eq split: prod.splits)

lemma prepare_map_acls_total:
  assumes "prepare_acls (JRef d) s = Inr s'" "d < nxt s"
    "\<not> truthy (lookup s d ''acls'') \<or>
     (\<exists>b. lookup s d ''acls'' = JRef b \<and> kind (heap s b) \<noteq> Function \<and>
          integrity s b = Extensible)"
  shows "\<exists>r. prepare_map_acls nm (JRef d) s' = Inr r"
proof -
  let ?a = "lookup s d ''acls''"
  from assms(2) have ne: "d \<noteq> nxt s" by simp
  from assms(3) consider (none) "\<not> truthy ?a"
    | (obj) b where "?a = JRef b" "kind (heap s b) \<noteq> Function" "integrity s b = Extensible"
    by auto
  then show ?thesis
  proof cases
    case none
    with assms(1) have s': "s' = put (snd (alloc (new_array []) s)) d ''acls'' (JRef (nxt s))"
      by (simp add: prepare_acls_def alloc_eq split: prod.splits if_splits)
    show ?thesis
      unfolding s' prepare_map_acls_def by (simp add: lookup_put array_method_fresh[OF ne])
  next
    case obj
    then have "typeof s ?a = ''object''" by (simp add: typeof_def)
    with obj assms(1) have s': "s' = put (snd (alloc (new_array [?a]) s)) d ''acls'' (JRef (nxt s))"
      by (simp add: prepare_acls_def alloc_eq split: prod.splits if_splits)
    show ?thesis
      unfolding s' prepare_map_acls_def
      by (simp add: lookup_put array_method_fresh[OF ne] obj acl_default_def)
  qed
qed


text \<open>
  A definition with a string name and a string verb, whose options (and their
  \<^verbatim>\<open>http\<close>) and ACLs are absent or objects, is processed up to the handler check.
\<close>

lemma prepare_reaches_hooks:
  assumes d: "d < nxt s"
    and ext: "integrity s d = Extensible"
    and verb: "lookup s d ''verb'' = JStr v"
    and nm: "lookup s d ''name'' = JStr n"
    and options: "\<not> truthy (lookup s d ''options'') \<or>
      (\<exists>r<nxt s. lookup s d ''options'' = JRef r \<and> integrity s r = Extensible \<and>
         (\<not> truthy (lookup s r ''http'') \<or>
          (\<exists>h<nxt s. lookup s r ''http'' = JRef h \<and> integrity s h = Extensible)))"
    and acls: "\<not> truthy (lookup s d ''acls'') \<or>
      (\<exists>b<nxt s. lookup s d ''acls'' = JRef b \<and> kind (heap s b) = Plain \<and>
         integrity s b = Extensible)"
  obtains r s1 s2 nm' s3 s4 s5 as s6 where
    "prepare_options (JRef d) s = Inr (JRef r, s1)"
    "prepare_isStatic (JRef d) s1 = Inr s2"
    "prepare_name (JRef d) s2 = Inr nm'"
    "prepare_http (JRef d) (JRef r) s2 = Inr s3"
    "prepare_schema (JRef d) (JRef r) s3 = Inr s4"
    "prepare_acls (JRef d) s4 = Inr s5"
    "prepare_map_acls nm' (JRef d) s5 = Inr (as, s6)"
    "lookup s6 d ''handler'' = lookup s d ''handler''"
proof -
  \<comment> \<open>line 174\<close>
  obtain rm s1 where rm: "or_new (lookup s d ''options'') (new_object []) s = (rm, s1)"
    by (cases "or_new (lookup s d ''options'') (new_object []) s")
  from or_new_cases[OF rm] options obtain r where r: "rm = JRef r"
    and rc: "(r < nxt s \<and> lookup s d ''options'' = JRef r \<and> s1 = s) \<or>
             (r = nxt s \<and> s1 = snd (alloc (new_object []) s))"
    by auto
  have o: "prepare_options (JRef d) s = Inr (JRef r, s1)"
    using rm r by (simp add: prepare_options_def)
  note f1 = prepare_options_frame[OF o]
  have d1: "d < nxt s1" using frame_nxt[OF f1] d by simp
  have r1: "r < nxt s1" using rc by auto
  have e1: "integrity s1 d = Extensible" using frame_integrity[OF f1 d] ext by simp
  have er1: "integrity s1 r = Extensible" using rc options by auto
  \<comment> \<open>lines 176--182\<close>
  from prepare_isStatic_total[OF e1] obtain s2 where i: "prepare_isStatic (JRef d) s1 = Inr s2" ..
  note f12 = prepare_isStatic_frame[OF i]
  note f2 = prepare_frame_head[OF o i]
  have d2: "d < nxt s2" using frame_nxt[OF f2] d by simp
  have r2: "r < nxt s2" using frame_nxt[OF f12] r1 by simp
  have e2: "integrity s2 d = Extensible" using frame_integrity[OF f2 d] ext by simp
  have er2: "integrity s2 r = Extensible" using frame_integrity[OF f12 r1] er1 by simp
  have "lookup s2 d ''name'' = JStr n"
    using frame_lookup[OF f2 d, of "''name''"] nm by simp
  then obtain nm' where n: "prepare_name (JRef d) s2 = Inr nm'"
    by (simp add: prepare_name_def getEndpointName_def to_str_def)
  \<comment> \<open>lines 185--189\<close>
  have v2: "lookup s2 d ''verb'' = JStr v"
    using frame_lookup[OF f2 d, of "''verb''"] verb by simp
  have h2: "\<not> truthy (lookup s2 r ''http'') \<or>
            (\<exists>h. lookup s2 r ''http'' = JRef h \<and> integrity s2 h = Extensible)"
    using rc
  proof
    assume a: "r < nxt s \<and> lookup s d ''options'' = JRef r \<and> s1 = s"
    then have eq: "lookup s2 r ''http'' = lookup s r ''http''"
      using frame_lookup[OF f2, of r "''http''"] by simp
    from a options consider "\<not> truthy (lookup s r ''http'')"
      | h where "h < nxt s" "lookup s r ''http'' = JRef h" "integrity s h = Extensible"
      by auto
    then show ?thesis
    proof cases
      case 1
      with eq show ?thesis by simp
    next
      case 2
      with eq frame_integrity[OF f2 2(1)] show ?thesis by simp
    qed
  next
    assume a: "r = nxt s \<and> s1 = snd (alloc (new_object []) s)"
    have "lookup s2 r ''http'' = lookup s1 r ''http''"
      by (rule frame_lookup[OF f12]) (simp_all add: a)
    also have "\<dots> = JUndefined" by (simp add: a lookup_alloc new_object_def)
    finally show ?thesis by simp
  qed
  from prepare_http_total[OF v2 d2 er2 h2]
  obtain s3 where h: "prepare_http (JRef d) (JRef r) s2 = Inr s3" ..
  let ?K = "UNIV \<times> {''http'', ''verb'', ''path'', ''description'', ''accepts'', ''returns''}"
  have f3: "frame ?K s2 s3"
    by (rule frame_mono[OF prepare_http_frame[OF h]]) auto
  \<comment> \<open>lines 191--201\<close>
  have er3: "integrity s3 r = Extensible" using frame_integrity[OF f3 r2] er2 by simp
  from prepare_schema_total[OF er3]
  obtain s4 where c: "prepare_schema (JRef d) (JRef r) s3 = Inr s4" ..
  have f34: "frame ?K s3 s4"
    by (rule frame_mono[OF prepare_schema_frame[OF c]]) auto
  have f4: "frame ?K s2 s4"
    using frame_trans[OF f3 f34] by simp
  have d4: "d < nxt s4" using frame_nxt[OF f4] d2 by simp
  have e4: "integrity s4 d = Extensible" using frame_integrity[OF f4 d2] e2 by simp
  from prepare_acls_total[OF e4] obtain s5 where l: "prepare_acls (JRef d) s4 = Inr s5" ..
  note f5 = prepare_acls_frame[OF l]
  \<comment> \<open>lines 203--212\<close>
  have a4: "lookup s4 d ''acls'' = lookup s d ''acls''"
    by (rule prepare_lookup_s4[OF f2 f4 d]) simp
  have k4: "kind (heap s4 b) = kind (heap s b) \<and> integrity s4 b = integrity s b"
    if "b < nxt s" for b
  proof -
    from that have "b < nxt s2" using frame_nxt[OF f2] by simp
    then show ?thesis
      using frame_kind[OF f4, of b] frame_kind[OF f2 that]
        frame_integrity[OF f4, of b] frame_integrity[OF f2 that] by simp
  qed
  have "\<not> truthy (lookup s4 d ''acls'') \<or>
     (\<exists>b. lookup s4 d ''acls'' = JRef b \<and> kind (heap s4 b) \<noteq> Function \<and>
          integrity s4 b = Extensible)"
    using acls a4 k4 by auto
  from prepare_map_acls_total[OF l d4 this]
  obtain as s6 where m: "prepare_map_acls nm' (JRef d) s5 = Inr (as, s6)" by fastforce
  \<comment> \<open>lines 215--229\<close>
  from prepare_map_acls_defaulted[OF m] have df: "defaulted nm' (set as) s5 s6" by simp
  have "lookup s6 d ''handler'' = lookup s5 d ''handler''"
    by (rule defaulted_lookup[OF df]) simp_all
  also have "\<dots> = lookup s4 d ''handler''"
    by (rule frame_lookup[OF f5 d4]) simp
  also have "\<dots> = lookup s d ''handler''"
    by (rule prepare_lookup_s4[OF f2 f4 d]) simp
  finally have "lookup s6 d ''handler'' = lookup s d ''handler''" .
  with o i n h c l m show thesis by (rule that)
qed


text \<open>Such a definition without a handler fails with \<^verbatim>\<open>Error('Handler is not set')\<close>.\<close>

lemma prepare_missing_handler:
  assumes "d < nxt s"
    and "integrity s d = Extensible"
    and "lookup s d ''verb'' = JStr v"
    and "lookup s d ''name'' = JStr n"
    and "\<not> truthy (lookup s d ''handler'')"
    and "\<not> truthy (lookup s d ''options'') \<or>
      (\<exists>r<nxt s. lookup s d ''options'' = JRef r \<and> integrity s r = Extensible \<and>
         (\<not> truthy (lookup s r ''http'') \<or>
          (\<exists>h<nxt s. lookup s r ''http'' = JRef h \<and> integrity s h = Extensible)))"
    and "\<not> truthy (lookup s d ''acls'') \<or>
      (\<exists>b<nxt s. lookup s d ''acls'' = JRef b \<and> kind (heap s b) = Plain \<and>
         integrity s b = Extensible)"
  shows "prepare (JRef d) s = Inl (Error ''Handler is not set'')"
proof -
  from assms(1,2,3,4,6,7) obtain r s1 s2 nm' s3 s4 s5 as s6 where
    st: "prepare_options (JRef d) s = Inr (JRef r, s1)"
      "prepare_isStatic (JRef d) s1 = Inr s2"
      "prepare_name (JRef d) s2 = Inr nm'"
      "prepare_http (JRef d) (JRef r) s2 = Inr s3"
      "prepare_schema (JRef d) (JRef r) s3 = Inr s4"
      "prepare_acls (JRef d) s4 = Inr s5"
      "prepare_map_acls nm' (JRef d) s5 = Inr (as, s6)" and
    h: "lookup s6 d ''handler'' = lookup s d ''handler''"
    by (rule prepare_reaches_hooks)
  from h assms(5) have "prepare_hooks (JRef d) s6 = Inl (Error ''Handler is not set'')"
    by (simp add: prepare_hooks_def)
  then show ?thesis
    by (simp add: prepare_def st)
qed

text \<open>
  The sequence of ACLs in the descriptor: one element, the value of \<^verbatim>\<open>definition.acls\<close>
  itself, when that is truthy; empty otherwise.
\<close>

lemma prepare_acls_value:
  assumes "prepare (JRef d) s = Inr (desc, s')" and "d < nxt s"
  shows "acls desc = (if truthy (lookup s d ''acls'') then [lookup s d ''acls''] else [])"
proof -
  from assms obtain r s1 s2 s3 s4 s5 where
    l: "prepare_acls (JRef d) s4 = Inr s5" and
    m: "prepare_map_acls (name desc) (JRef d) s5 = Inr (acls desc, s')" and
    f2: "frame {(d, ''isStatic'')} s s2" and
    f4: "frame (UNIV \<times> {''http'', ''verb'', ''path'', ''description'', ''accepts'', ''returns''})
           s2 s4"
    by (rule prepare_run)
  have d4: "d < nxt s4" using frame_nxt[OF f2] frame_nxt[OF f4] assms(2) by simp
  have a4: "lookup s4 d ''acls'' = lookup s d ''acls''"
    by (rule prepare_lookup_s4[OF f2 f4 assms(2)]) simp
  from prepare_map_acls_defaulted[OF m]
  have "array_method s5 (lookup s5 d ''acls'') ''map'' = Inr (acls desc)" by simp
  from prepare_acls_elems[OF l d4 this] a4 show ?thesis by simp
qed

subsection \<open>Evaluating \<^verbatim>\<open>prepare\<close> on the examples\<close>

lemmas prepare_defs =
  prepare_def prepare_options_def prepare_isStatic_def prepare_name_def prepare_http_def
  prepare_schema_def prepare_acls_def prepare_map_acls_def prepare_hooks_def acl_default_def
  getEndpointName_def CONTROLLER_NAME_PREFIX_def to_str_def toLowerCase_def lower_char_def
  typeof_def array_method_def callable_def

lemmas eval_simps =
  or_new_def alloc_eq lookup_put lookup_alloc lookup_mk_state new_object_def new_array_def
  new_function_def props_put

lemma ex_login_returns: "\<exists>r. prepare (JRef 0) ex_login = Inr r"
  by (simp add: ex_login_def prepare_defs eval_simps split: prod.splits)

lemma ex_ping_returns: "\<exists>r. prepare (JRef 0) ex_ping = Inr r"
  by (simp add: ex_ping_def prepare_defs eval_simps split: prod.splits)

lemma ex_acl_returns: "\<exists>r. prepare (JRef 0) ex_acl = Inr r"
  by (simp add: ex_acl_def prepare_defs eval_simps split: prod.splits)

text \<open>
  When \<^verbatim>\<open>acls\<close> is a single object, the descriptor's sequence holds that one object:
  its \<^verbatim>\<open>property\<close> is, after \<^verbatim>\<open>prepare\<close>, the value it had when that was truthy and
  the descriptor's final name otherwise, and its \<^verbatim>\<open>principalType\<close> is the value it had
  when that was truthy and \<^verbatim>\<open>"ROLE"\<close> otherwise.  The test of the source is
  \<^verbatim>\<open>!acl.property\<close>, so a value that is present but falsy (the empty string, zero)
  is overwritten like an absent one (\<open>acl_falsy_overwritten\<close>).
\<close>

lemma single_acl_defaults:
  assumes "prepare (JRef d) s = Inr (desc, s')" and "d < nxt s"
    and "allocated s (lookup s d ''acls'')"
  shows "\<forall>e\<in>set (acls desc). \<exists>b. e = JRef b \<and>
           lookup s' b ''property'' =
             (if truthy (lookup s b ''property'') then lookup s b ''property''
              else JStr (name desc)) \<and>
           lookup s' b ''principalType'' =
             (if truthy (lookup s b ''principalType'') then lookup s b ''principalType''
              else JStr ''ROLE'')"
proof
  fix e assume e: "e \<in> set (acls desc)"
  from assms(1,2) obtain r s1 s2 s3 s4 s5 where
    l: "prepare_acls (JRef d) s4 = Inr s5" and
    m: "prepare_map_acls (name desc) (JRef d) s5 = Inr (acls desc, s')" and
    f2: "frame {(d, ''isStatic'')} s s2" and
    f4: "frame (UNIV \<times> {''http'', ''verb'', ''path'', ''description'', ''accepts'', ''returns''})
           s2 s4" and
    f5: "frame {(d, ''acls'')} s4 s5" and
    df: "defaulted (name desc) (set (acls desc)) s5 s'"
    by (rule prepare_run)
  have d4: "d < nxt s4" using frame_nxt[OF f2] frame_nxt[OF f4] assms(2) by simp
  have a4: "lookup s4 d ''acls'' = lookup s d ''acls''"
    by (rule prepare_lookup_s4[OF f2 f4 assms(2)]) simp
  from prepare_map_acls_defaulted[OF m]
  have "array_method s5 (lookup s5 d ''acls'') ''map'' = Inr (acls desc)"
    and refs: "\<forall>e\<in>set (acls desc). \<exists>b. e = JRef b" by simp_all
  from prepare_acls_elems[OF l d4 this(1)] a4
  have "acls desc = (if truthy (lookup s d ''acls'') then [lookup s d ''acls''] else [])" by simp
  with e have e': "e = lookup s d ''acls''" by (simp split: if_splits)
  from refs e obtain b where b: "e = JRef b" by auto
  from e' b have "lookup s d ''acls'' = JRef b" by simp
  with assms(3) have bs: "b < nxt s" by (simp add: allocated_def)
  then have b4: "b < nxt s4" using frame_nxt[OF f2] frame_nxt[OF f4] by simp
  have k: "lookup s5 b k = lookup s b k" if "k = ''property'' \<or> k = ''principalType''" for k
  proof -
    have "lookup s5 b k = lookup s4 b k"
      by (rule frame_lookup[OF f5 b4]) (use that in auto)
    also have "\<dots> = lookup s b k"
      by (rule prepare_lookup_s4[OF f2 f4 bs]) (use that in auto)
    finally show ?thesis .
  qed
  from df e b have
    "lookup s' b ''property'' = dflt (lookup s5 b ''property'') (JStr (name desc))"
    "lookup s' b ''principalType'' = dflt (lookup s5 b ''principalType'') (JStr ''ROLE'')"
    by (simp_all add: defaulted_def)
  with b k show "\<exists>b. e = JRef b \<and>
           lookup s' b ''property'' =
             (if truthy (lookup s b ''property'') then lookup s b ''property''
              else JStr (name desc)) \<and>
           lookup s' b ''principalType'' =
             (if truthy (lookup s b ''principalType'') then lookup s b ''principalType''
              else JStr ''ROLE'')"
    by (simp add: dflt_def)
qed

lemma ex_acl_defaulted:
  "\<exists>r. prepare (JRef 0) ex_acl = Inr r \<and> acls (fst r) = [JRef 2] \<and>
     lookup (snd r) 2 ''property'' = JStr ''endpoint:login'' \<and>
     lookup (snd r) 2 ''principalType'' = JStr ''USER''"
proof -
  from ex_acl_returns obtain d1 s1 where 1: "prepare (JRef 0) ex_acl = Inr (d1, s1)" by auto
  then have 2: "acls d1 = [JRef 2]" and 3: "name d1 = ''endpoint:login''"
    by (simp add: ex_acl_def prepare_defs eval_simps split: prod.splits, auto)+
  have "lookup s1 2 ''property'' = JStr ''endpoint:login'' \<and>
        lookup s1 2 ''principalType'' = JStr ''USER''"
    using single_acl_defaults[OF 1] 2 3
    by (simp add: ex_acl_def lookup_mk_state new_object_def allocated_def)
  with 1 2 show ?thesis by simp
qed

lemma acl_falsy_overwritten:
  "object_after (prepare (JRef 0) ex_acl_empty) 2 =
     Some (new_object [(''property'', JStr ''endpoint:login''), (''principalType'', JStr ''ROLE''),
                  (''permission'', JStr ''ALLOW'')])"
  by (simp add: object_after_def ex_acl_empty_def prepare_defs eval_simps
        heap_put split: prod.splits)

text \<open>
  A frozen definition: line 177 assigns \<^verbatim>\<open>isStatic\<close> on it, which throws in strict
  mode.
\<close>

lemma prepare_frozen_throws:
  "descriptor_of (prepare (JRef 0) ex_frozen) = Inl TypeError"
  by (simp add: descriptor_of_def ex_frozen_def ex_login_def prepare_defs eval_simps writable_def
        split: prod.splits)

subsection \<open>The visibility resolver\<close>

lemmas hide_defs =
  hideEndpoints_def hideEndpoints_blacklist_def modelMethods_def getSettings_def
  own_keys_def lodash_union_def isArray_def array_length_def array_method_def callable_def
  MODEL_METHODS_def RELATION_METHODS_def SCOPE_METHODS_def disabled_def



section \<open>The claims\<close>

text \<open>
  C7.  For every endpoint definition whose \<^verbatim>\<open>isStatic\<close> is unset (absent, undefined
  or null), the descriptor that \<^verbatim>\<open>prepare\<close> returns has \<^verbatim>\<open>isStatic = true\<close>; an
  explicit \<^verbatim>\<open>isStatic = false\<close> is preserved as \<^verbatim>\<open>false\<close>.  The definition is the
  object at the allocated address \<open>d\<close>; an absent property reads as \<^verbatim>\<open>undefined\<close>.
  (When a descriptor is returned is the matter of \<open>prepare_total\<close>.)
\<close>

theorem isStatic_default:
  assumes "prepare (JRef d) s = Inr (desc, s')" and "d < nxt s"
  shows "(lookup s d ''isStatic'' = JUndefined \<or> lookup s d ''isStatic'' = JNull
            \<longrightarrow> isStatic desc = JBool True) \<and>
         (lookup s d ''isStatic'' = JBool False \<longrightarrow> isStatic desc = JBool False)"
proof -
  from assms(1) obtain a r s1 s2 nm s3 s4 s5 hs where
    a: "JRef d = JRef a" and
    o: "prepare_options (JRef d) s = Inr (JRef r, s1)" and
    i: "prepare_isStatic (JRef d) s1 = Inr s2" and
    t: "prepare_http (JRef d) (JRef r) s2 = Inr s3"
       "prepare_schema (JRef d) (JRef r) s3 = Inr s4"
       "prepare_acls (JRef d) s4 = Inr s5"
       "prepare_map_acls nm (JRef d) s5 = Inr (acls desc, s')" and
    desc: "desc = \<lparr>name = nm, isStatic = lookup s' a ''isStatic'', remoteMethod = JRef r,
             acls = acls desc, handler = lookup s' a ''handler'', hooks = hs\<rparr>"
    by (rule prepareE)
  from a have [simp]: "a = d" by simp
  have n1: "d < nxt s1" using frame_nxt[OF prepare_options_frame[OF o]] assms(2) by simp
  have n2: "d < nxt s2" using frame_nxt[OF prepare_isStatic_frame[OF i]] n1 by simp
  have "lookup s' d ''isStatic'' = lookup s2 d ''isStatic''"
    by (rule frame_lookup[OF prepare_frame_tail[OF t] n2]) (simp add: written_keys_def)
  moreover have "lookup s1 d ''isStatic'' = lookup s d ''isStatic''"
    by (rule frame_lookup[OF prepare_options_frame[OF o] assms(2)]) simp
  moreover have "isStatic desc = lookup s' d ''isStatic''"
    by (subst desc) simp
  ultimately show ?thesis
    using prepare_isStatic_value[OF i] by simp
qed

theorem isStatic_default_witness:
  "(\<exists>r. prepare (JRef 0) ex_login = Inr r \<and> isStatic (fst r) = JBool True) \<and>
   (\<exists>r. prepare (JRef 0) ex_ping = Inr r \<and> isStatic (fst r) = JBool False)"
proof -
  from ex_login_returns obtain d1 s1 where 1: "prepare (JRef 0) ex_login = Inr (d1, s1)" by auto
  from ex_ping_returns obtain d2 s2 where 2: "prepare (JRef 0) ex_ping = Inr (d2, s2)" by auto
  have "isStatic d1 = JBool True"
    using isStatic_default[OF 1] by (simp add: ex_login_def lookup_mk_state new_object_def)
  moreover have "isStatic d2 = JBool False"
    using isStatic_default[OF 2] by (simp add: ex_ping_def lookup_mk_state new_object_def)
  ultimately show ?thesis using 1 2 by simp
qed

text \<open>
  C8.  For every endpoint definition with name \<open>n\<close>, the final name of the descriptor is
  \<^verbatim>\<open>"endpoint:" + n\<close> when the descriptor is static and \<^verbatim>\<open>"prototype.endpoint:" + n\<close>
  when it is not; in particular when \<^verbatim>\<open>isStatic\<close> is \<^verbatim>\<open>false\<close>.
\<close>

theorem endpoint_name:
  assumes "prepare (JRef d) s = Inr (desc, s')" and "d < nxt s"
    and "lookup s d ''name'' = JStr n"
  shows "name desc = (if truthy (isStatic desc) then ''endpoint:'' @ n
                      else ''prototype.endpoint:'' @ n) \<and>
         (lookup s d ''isStatic'' = JBool False \<longrightarrow> name desc = ''prototype.endpoint:'' @ n)"
proof -
  from assms(1,2) obtain r s1 s2 s3 s4 s5 where
    i: "prepare_isStatic (JRef d) s1 = Inr s2" and
    o: "prepare_options (JRef d) s = Inr (JRef r, s1)" and
    n: "prepare_name (JRef d) s2 = Inr (name desc)" and
    st: "isStatic desc = lookup s' d ''isStatic''" and
    f2: "frame {(d, ''isStatic'')} s s2" and
    f4: "frame (UNIV \<times> {''http'', ''verb'', ''path'', ''description'', ''accepts'', ''returns''})
           s2 s4" and
    f5: "frame {(d, ''acls'')} s4 s5" and
    df: "defaulted (name desc) (set (acls desc)) s5 s'"
    by (rule prepare_run)
  have d2: "d < nxt s2" using frame_nxt[OF f2] assms(2) by simp
  have d4: "d < nxt s4" using frame_nxt[OF f4] d2 by simp
  have "lookup s2 d ''name'' = JStr n"
    using frame_lookup[OF f2 assms(2), of "''name''"] assms(3) by simp
  from prepare_name_value[OF n this]
  have nm: "name desc = (if truthy (lookup s2 d ''isStatic'') then ''endpoint:'' @ n
                         else ''prototype.endpoint:'' @ n)" .
  have "lookup s' d ''isStatic'' = lookup s5 d ''isStatic''"
    by (rule defaulted_lookup[OF df]) simp_all
  also have "\<dots> = lookup s4 d ''isStatic''"
    by (rule frame_lookup[OF f5 d4]) simp
  also have "\<dots> = lookup s2 d ''isStatic''"
    by (rule frame_lookup[OF f4 d2]) simp
  finally have eq: "isStatic desc = lookup s2 d ''isStatic''" using st by simp
  have "lookup s1 d ''isStatic'' = lookup s d ''isStatic''"
    by (rule frame_lookup[OF prepare_options_frame[OF o] assms(2)]) simp
  with prepare_isStatic_value[OF i]
  have "lookup s d ''isStatic'' = JBool False \<longrightarrow> lookup s2 d ''isStatic'' = JBool False"
    by simp
  with nm eq show ?thesis by simp
qed

theorem endpoint_name_witness:
  "(\<exists>r. prepare (JRef 0) ex_ping = Inr r \<and> name (fst r) = ''prototype.endpoint:ping'') \<and>
   (\<exists>r. prepare (JRef 0) ex_login = Inr r \<and> name (fst r) = ''endpoint:login'')"
proof -
  from ex_ping_returns obtain d1 s1 where 1: "prepare (JRef 0) ex_ping = Inr (d1, s1)" by auto
  from ex_login_returns obtain d2 s2 where 2: "prepare (JRef 0) ex_login = Inr (d2, s2)" by auto
  have "name d1 = ''prototype.endpoint:ping''"
    using endpoint_name[OF 1, of "''ping''", THEN conjunct2]
    by (simp add: ex_ping_def lookup_mk_state new_object_def)
  moreover have "isStatic d2 = JBool True"
    using 2 by (simp add: ex_login_def prepare_defs eval_simps split: prod.splits) auto
  then have "name d2 = ''endpoint:login''"
    using endpoint_name[OF 2, of "''login''", THEN conjunct1]
    by (simp add: ex_login_def lookup_mk_state new_object_def)
  ultimately show ?thesis using 1 2 by simp
qed



text \<open>
  C10.  When the model is \<^verbatim>\<open>undefined\<close> or \<^verbatim>\<open>null\<close>, or is an object without a
  \<^verbatim>\<open>sharedClass\<close> property, applying the mixin does nothing: the state it returns is
  the state it was given (no object changed or allocated, no call to the host recorded),
  whatever the options are and whatever loading the controller file would do.
\<close>

theorem Controller_noop:
  assumes "Model = JUndefined \<or> Model = JNull \<or>
           (\<exists>a. Model = JRef a \<and> map_of (props (heap s a)) ''sharedClass'' = None)"
  shows "Controller e Model options s = Inr s"
  using assms by (auto simp: Controller_def lookup_def)

theorem Controller_noop_witness:
  "Controller ex_env (JRef 0) JUndefined ex_login = Inr ex_login \<and>
   Controller ex_env JNull JUndefined ex_login = Inr ex_login"
proof -
  have "map_of (props (heap ex_login 0)) ''sharedClass'' = None"
    by (simp add: ex_login_def new_object_def)
  then show ?thesis
    using Controller_noop[of "JRef 0" ex_login ex_env JUndefined]
      Controller_noop[of JNull ex_login ex_env JUndefined] by simp
qed

text \<open>
  C1.  A relation listed in the option \<^verbatim>\<open>whitelist.relations\<close> should have none of
  its operations \<^verbatim>\<open>prototype.__VERB__RELATION\<close> suppressed, and a relation that is
  not listed all nine of them.  The code departs from it.  In \<^verbatim>\<open>ex_relations\<close> the
  model has the relations \<^verbatim>\<open>orders\<close> and \<^verbatim>\<open>tags\<close> and the option is
  \<^verbatim>\<open>whitelist.relations = ['orders']\<close>.  \<^verbatim>\<open>hideEndpoints\<close> reads
  \<^verbatim>\<open>whitelist.relation\<close> (line 102), which is absent, so the nine operations of the
  whitelisted relation \<^verbatim>\<open>orders\<close> are disabled like those of \<^verbatim>\<open>tags\<close>.
\<close>

theorem relations_whitelist_ignored:
  "disabled_of (hideEndpoints (JRef 0) (JRef 8) (JRef 6) ex_relations) =
     map JStr (MODEL_METHODS @
       map (\<lambda>m. ''prototype.__'' @ m @ ''__orders'') RELATION_METHODS @
       map (\<lambda>m. ''prototype.__'' @ m @ ''__tags'') RELATION_METHODS)"
  by (simp add: disabled_of_def ex_relations_def hide_defs eval_simps split: prod.splits)

text \<open>
  C2.  A single ACL object should become a one-element sequence, an absent \<^verbatim>\<open>acls\<close>
  the empty sequence, and a sequence of entries should stay that sequence.  The first two
  hold (\<open>prepare_acls_value\<close>); for the third the code departs from it.  In
  \<^verbatim>\<open>ex_acl_array\<close> the definition's \<^verbatim>\<open>acls\<close> is already a sequence of two entries.
  An array is an object for \<^verbatim>\<open>typeof\<close>, so line 198 wraps it: the descriptor's
  \<^verbatim>\<open>acls\<close> is the one-element sequence holding the array itself; the defaults are
  written on the array and its entries stay as they were.
\<close>

theorem acls_array_nested:
  "descriptor_of (prepare (JRef 0) ex_acl_array) =
     Inr \<lparr>name = ''endpoint:login'', isStatic = JBool True, remoteMethod = JRef 5,
          acls = [JRef 2], handler = JRef 1, hooks = []\<rparr> \<and>
   object_after (prepare (JRef 0) ex_acl_array) 2 =
     Some \<lparr>kind = Array, elems = [JRef 3, JRef 4],
           props = [(''property'', JStr ''endpoint:login''), (''principalType'', JStr ''ROLE'')]\<rparr> \<and>
   object_after (prepare (JRef 0) ex_acl_array) 3 =
     Some (new_object [(''principalId'', JStr ''admin''), (''permission'', JStr ''ALLOW'')])"
  by (simp add: descriptor_of_def object_after_def ex_acl_array_def prepare_defs eval_simps
        heap_put split: prod.splits)

text \<open>
  C9.  Every entry of a definition's \<^verbatim>\<open>acls\<close> should get its own defaults:
  \<^verbatim>\<open>property\<close> the descriptor's final name and \<^verbatim>\<open>principalType\<close> \<^verbatim>\<open>"ROLE"\<close> when
  it lacks them.  For a single ACL object this holds (\<open>single_acl_defaults\<close>); for a
  sequence of entries the code departs from it.  In \<^verbatim>\<open>ex_acl_array\<close> the entries are
  the objects at addresses 3 and 4: the first lacks \<^verbatim>\<open>property\<close> and
  \<^verbatim>\<open>principalType\<close>, the second lacks \<^verbatim>\<open>property\<close>.  Line 198 wraps the array, so
  the map of line 203 visits the array and not its entries: after \<^verbatim>\<open>prepare\<close> both
  entries are as they were, without the defaults.
\<close>

theorem acl_entries_not_defaulted:
  "descriptor_of (prepare (JRef 0) ex_acl_array) =
     Inr \<lparr>name = ''endpoint:login'', isStatic = JBool True, remoteMethod = JRef 5,
          acls = [JRef 2], handler = JRef 1, hooks = []\<rparr> \<and>
   elems (heap ex_acl_array 2) = [JRef 3, JRef 4] \<and>
   lookup ex_acl_array 3 ''property'' = JUndefined \<and>
   lookup ex_acl_array 3 ''principalType'' = JUndefined \<and>
   lookup ex_acl_array 4 ''property'' = JUndefined \<and>
   object_after (prepare (JRef 0) ex_acl_array) 3 = Some (heap ex_acl_array 3) \<and>
   object_after (prepare (JRef 0) ex_acl_array) 4 = Some (heap ex_acl_array 4)"
  by (simp add: descriptor_of_def object_after_def ex_acl_array_def prepare_defs eval_simps
        heap_put split: prod.splits)

text \<open>
  C3.  The descriptor's \<^verbatim>\<open>http.verb\<close> should be the verb in lower case, and
  \<^verbatim>\<open>'get'\<close> when the verb is falsy or absent, without a failure for a missing verb.
  For a string verb this holds (\<open>prepare_http_verb\<close>); for an absent one the code
  departs from it.  \<^verbatim>\<open>{name: 'ping', isStatic: false, handler: fn}\<close> has no verb:
  line 188 calls \<^verbatim>\<open>toLowerCase\<close> on \<^verbatim>\<open>undefined\<close> before the default \<^verbatim>\<open>'get'\<close> can
  apply, and \<^verbatim>\<open>prepare\<close> throws a \<^verbatim>\<open>TypeError\<close>.
\<close>

theorem missing_verb_throws:
  "descriptor_of (prepare (JRef 0) ex_no_verb) = Inl TypeError"
  by (simp add: descriptor_of_def ex_no_verb_def prepare_defs eval_simps split: prod.splits)

text \<open>
  C5.  A definition without a handler should fail with the error
  \<^verbatim>\<open>Error('Handler is not set')\<close>.  With a string verb it does
  (\<open>prepare_missing_handler\<close>); without one the code departs from it.
  \<^verbatim>\<open>{name: 'ping'}\<close> has no handler, and no verb either: \<^verbatim>\<open>prepare\<close> throws the
  \<^verbatim>\<open>TypeError\<close> of line 188 and never reaches the handler check of line 215, so the
  error is not \<^verbatim>\<open>Error('Handler is not set')\<close>.
\<close>

theorem missing_handler_not_reported:
  "descriptor_of (prepare (JRef 0) ex_name_only) = Inl TypeError \<and>
   descriptor_of (prepare (JRef 0) ex_name_only) \<noteq> Inl (Error ''Handler is not set'')"
  by (simp add: descriptor_of_def ex_name_only_def prepare_defs eval_simps split: prod.splits)






end
